theory Spec2Isabelle
  imports Main "HOL-Library.Multiset"
begin

section \<open>Errors\<close>

text \<open>
  The Python exceptions that the modelled functions can raise. A function that may raise
  returns \<open>error + 'a\<close>, with \<open>Inl\<close> for the exception.
\<close>

datatype error =
    ParseError | ValueError | IndexError | ZeroDivisionError | TypeError
  | AssertionError | StopIteration | RuntimeError | ContradictionCheckFailed

section \<open>constraints.py\<close>

subsection \<open>copysign, Term, AllBooleanUpperBound\<close>

definition copysign :: "int \<Rightarrow> int \<Rightarrow> int" where
  "copysign a b = (if b \<ge> 0 then \<bar>a\<bar> else - \<bar>a\<bar>)"

datatype Term = Term (coefficient: int) (variable: int)

text \<open>\<open>AllBooleanUpperBound.__getitem__\<close>: every key has upper bound 1.\<close>

definition AllBooleanUpperBound :: "int \<Rightarrow> int" where
  "AllBooleanUpperBound key = 1"

subsection \<open>Inequality\<close>

text \<open>
  The fields of \<open>Inequality\<close>. \<open>dict_cached\<close> is \<open>self._dict is not None\<close>. The field
  \<open>expanded\<close> is never read and \<open>variableUpperBounds\<close> is the default
  \<open>AllBooleanUpperBound()\<close> at every construction in the sources, so neither is a field
  here.

  The cached dictionary maps \<open>abs(x.variable)\<close> to the term object \<open>x\<close> itself, so it always
  is the dictionary comprehension over the current \<open>terms\<close>: terms are appended only under
  a fresh key, and no operation changes the absolute value of a stored variable. The model
  therefore recomputes it from \<open>terms\<close>.
\<close>

record Inequality =
  terms :: "Term list"
  degree :: int
  dict_cached :: bool

text \<open>\<open>Inequality.normalize\<close>: the loop over \<open>self.terms\<close>, threading \<open>self.degree\<close>.\<close>

fun Inequality_normalize :: "Term list \<Rightarrow> int \<Rightarrow> Term list \<times> int" where
  "Inequality_normalize [] d = ([], d)"
| "Inequality_normalize (t # ts) d =
     (if coefficient t < 0 then
        (let variable' = - variable t;
             coefficient' = \<bar>coefficient t\<bar>;
             d' = d + AllBooleanUpperBound \<bar>variable'\<bar> * coefficient'
         in case Inequality_normalize ts d' of (ts', d'') \<Rightarrow> (Term coefficient' variable' # ts', d''))
      else (case Inequality_normalize ts d of (ts', d'') \<Rightarrow> (t # ts', d'')))"

text \<open>\<open>Inequality.__init__\<close>\<close>

definition Inequality_init :: "Term list \<Rightarrow> int \<Rightarrow> Inequality" where
  "Inequality_init ts d =
     (case Inequality_normalize ts d of (ts', d') \<Rightarrow> \<lparr>terms = ts', degree = d', dict_cached = False\<rparr>)"

text \<open>
  The property \<open>dict\<close>: \<open>{abs(x.variable): x for x in self.terms}\<close> as an association list
  in insertion order; a repeated key keeps its place and takes the later value.
\<close>

fun dict_set :: "int \<Rightarrow> Term \<Rightarrow> (int \<times> Term) list \<Rightarrow> (int \<times> Term) list" where
  "dict_set k v [] = [(k, v)]"
| "dict_set k v ((k', v') # d) = (if k = k' then (k, v) # d else (k', v') # dict_set k v d)"

definition dict :: "Term list \<Rightarrow> (int \<times> Term) list" where
  "dict ts = foldl (\<lambda>d x. dict_set \<bar>variable x\<bar> x d) [] ts"

text \<open>
  \<open>self.dict[k]\<close> is a reference to a term object of \<open>self.terms\<close>: the last one whose
  absolute variable is \<open>k\<close>. The reference is modelled by the position of that term, and
  \<open>None\<close> is the \<open>KeyError\<close>.
\<close>

fun dict_index :: "Term list \<Rightarrow> int \<Rightarrow> nat option" where
  "dict_index [] k = None"
| "dict_index (t # ts) k =
     (case dict_index ts k of
        Some i \<Rightarrow> Some (Suc i)
      | None \<Rightarrow> if \<bar>variable t\<bar> = k then Some 0 else None)"

text \<open>\<open>Inequality.contract\<close>\<close>

definition Inequality_contract :: "Inequality \<Rightarrow> Inequality" where
  "Inequality_contract self =
     (if dict_cached self then
        self\<lparr>terms := filter (\<lambda>x. coefficient x \<noteq> 0) (map snd (dict (terms self))),
             dict_cached := False\<rparr>
      else self)"

text \<open>
  The body of the loop of \<open>Inequality.addWithFactor\<close> for one (already multiplied) term
  \<open>other\<close>. The first access to \<open>self.dict\<close> caches the dictionary.
\<close>

definition add_term :: "Term \<Rightarrow> Inequality \<Rightarrow> Inequality" where
  "add_term other self =
     (case dict_index (terms self) \<bar>variable other\<bar> of
        None \<Rightarrow>
          self\<lparr>terms := terms self @ [Term (coefficient other) (variable other)],
               dict_cached := True\<rparr>
      | Some i \<Rightarrow>
          (let my = terms self ! i in
           if \<bar>variable my\<bar> = \<bar>variable other\<bar> then
             (let a = copysign (coefficient my) (variable my);
                  b = copysign (coefficient other) (variable other);
                  newCoefficient = a + b;
                  newVariable = copysign \<bar>variable my\<bar> newCoefficient;
                  newCoefficient' = \<bar>newCoefficient\<bar>;
                  cancellation =
                    max 0 (max (coefficient my) (coefficient other) - newCoefficient')
              in self\<lparr>terms := (terms self)[i := Term newCoefficient' newVariable],
                      degree := degree self - cancellation * AllBooleanUpperBound \<bar>variable my\<bar>,
                      dict_cached := True\<rparr>)
           else self\<lparr>dict_cached := True\<rparr>))"

text \<open>
  \<open>Inequality.addWithFactor(factor, other)\<close>. \<open>other\<close> is read through its \<open>terms\<close> and
  \<open>degree\<close> only (it may be an \<open>Inequality\<close> or a \<open>LazyInequality\<close>), so the model takes
  these two views. \<open>other\<close> is an object different from \<open>self\<close>.
\<close>

definition addWithFactor :: "Inequality \<Rightarrow> int \<Rightarrow> Term list \<Rightarrow> int \<Rightarrow> Inequality" where
  "addWithFactor self factor other_terms other_degree =
     fold add_term
       (map (\<lambda>x. Term (factor * coefficient x) (variable x)) other_terms)
       (self\<lparr>degree := degree self + factor * other_degree\<rparr>)"

definition Inequality_addWithFactor :: "Inequality \<Rightarrow> int \<Rightarrow> Inequality \<Rightarrow> Inequality" where
  "Inequality_addWithFactor self factor other =
     addWithFactor self factor (terms other) (degree other)"

text \<open>\<open>Inequality.saturate\<close>; the statement \<open>self.dict\<close> caches the dictionary.\<close>

definition Inequality_saturate :: "Inequality \<Rightarrow> Inequality" where
  "Inequality_saturate self =
     self\<lparr>terms := map (\<lambda>t. Term (min (coefficient t) (degree self)) (variable t)) (terms self),
          dict_cached := True\<rparr>"

text \<open>\<open>Inequality.divide\<close>; Python's \<open>//\<close> raises on a zero divisor and floors otherwise.\<close>

definition Inequality_divide :: "Inequality \<Rightarrow> int \<Rightarrow> error + Inequality" where
  "Inequality_divide self d =
     (if d = 0 then Inl ZeroDivisionError
      else Inr (self\<lparr>terms := map (\<lambda>t. Term ((coefficient t + d - 1) div d) (variable t)) (terms self),
                    degree := (degree self + d - 1) div d\<rparr>))"

text \<open>\<open>Inequality.multiply\<close>\<close>

definition Inequality_multiply :: "Inequality \<Rightarrow> int \<Rightarrow> Inequality" where
  "Inequality_multiply self f =
     self\<lparr>terms := map (\<lambda>t. Term (coefficient t * f) (variable t)) (terms self),
          degree := degree self * f\<rparr>"

text \<open>\<open>Inequality.isContradiction\<close>\<close>

definition Inequality_isContradiction :: "Inequality \<Rightarrow> bool" where
  "Inequality_isContradiction self = (foldl (\<lambda>slack t. slack + coefficient t) (- degree self) (terms self) < 0)"

text \<open>
  \<open>Inequality.__eq__\<close>: contract both sides, compare the degrees and the terms sorted
  (stably) by absolute variable.
\<close>

definition Inequality_eq :: "Inequality \<Rightarrow> Inequality \<Rightarrow> bool" where
  "Inequality_eq self other =
     (let self' = Inequality_contract self; other' = Inequality_contract other
      in degree self' = degree other' \<and>
         sort_key (\<lambda>x. \<bar>variable x\<bar>) (terms self') = sort_key (\<lambda>x. \<bar>variable x\<bar>) (terms other'))"

subsection \<open>LazyInequality\<close>

text \<open>
  An instruction of rule \<open>p\<close> is a Python \<open>int\<close> or one of the strings \<open>"+"\<close>, \<open>"*"\<close>,
  \<open>"d"\<close>, \<open>"s"\<close>. The operand that \<open>compute\<close> hands to \<open>multiply\<close> and \<open>divide\<close> is whatever
  instruction follows the operator, so a recorded operation keeps an instruction.
\<close>

datatype ins = Num int | Plus | Times | Div | Sat

text \<open>The entries of \<open>LazyInequality.operations\<close>: \<open>("s", i)\<close>, \<open>("d", d)\<close>, \<open>("*", f)\<close>.\<close>

datatype lazy_op = OpS nat | OpD ins | OpM ins

record LazyInequality =
  constraint :: Inequality
  operations :: "lazy_op list"
  degrees :: "int list"

definition LazyInequality_init :: "Inequality \<Rightarrow> LazyInequality" where
  "LazyInequality_init c = \<lparr>constraint = c, operations = [], degrees = []\<rparr>"

text \<open>
  One branch of the loop of \<open>LazyInequality.apply\<close>. \<open>value + "s"\<close> raises \<open>TypeError\<close>.
  For a string operand of \<open>"*"\<close> Python builds a repeated string instead of raising; the
  model, whose values are integers, reports that case as \<open>TypeError\<close> as well.
\<close>

fun apply_op :: "int list \<Rightarrow> lazy_op \<Rightarrow> int \<Rightarrow> error + int" where
  "apply_op degs (OpS i) v = (if i < length degs then Inr (min (degs ! i) v) else Inl IndexError)"
| "apply_op degs (OpD (Num i)) v =
     (if i = 0 then Inl ZeroDivisionError else Inr ((v + i - 1) div i))"
| "apply_op degs (OpD _) v = Inl TypeError"
| "apply_op degs (OpM (Num i)) v = Inr (v * i)"
| "apply_op degs (OpM _) v = Inl TypeError"

fun apply_ops :: "int list \<Rightarrow> lazy_op list \<Rightarrow> int \<Rightarrow> error + int" where
  "apply_ops degs [] v = Inr v"
| "apply_ops degs (x # ops) v =
     (case apply_op degs x v of Inl e \<Rightarrow> Inl e | Inr v' \<Rightarrow> apply_ops degs ops v')"

definition LazyInequality_apply :: "LazyInequality \<Rightarrow> int \<Rightarrow> error + int" where
  "LazyInequality_apply self v = apply_ops (degrees self) (operations self) v"

definition applyTerm :: "LazyInequality \<Rightarrow> Term \<Rightarrow> error + Term" where
  "applyTerm self t =
     (case LazyInequality_apply self (coefficient t) of
        Inl e \<Rightarrow> Inl e
      | Inr c \<Rightarrow> Inr (Term c (variable t)))"

text \<open>Mapping a function that may raise over a list, left to right.\<close>

fun map_err :: "('a \<Rightarrow> error + 'b) \<Rightarrow> 'a list \<Rightarrow> error + 'b list" where
  "map_err f [] = Inr []"
| "map_err f (x # xs) =
     (case f x of
        Inl e \<Rightarrow> Inl e
      | Inr y \<Rightarrow> (case map_err f xs of Inl e \<Rightarrow> Inl e | Inr ys \<Rightarrow> Inr (y # ys)))"

text \<open>The properties \<open>terms\<close> (the map object, once iterated) and \<open>degree\<close>.\<close>

definition LazyInequality_terms :: "LazyInequality \<Rightarrow> error + Term list" where
  "LazyInequality_terms self = map_err (applyTerm self) (terms (constraint self))"

definition LazyInequality_degree :: "LazyInequality \<Rightarrow> error + int" where
  "LazyInequality_degree self = LazyInequality_apply self (degree (constraint self))"

definition LazyInequality_saturate :: "LazyInequality \<Rightarrow> error + LazyInequality" where
  "LazyInequality_saturate self =
     (case LazyInequality_apply self (degree (constraint self)) of
        Inl e \<Rightarrow> Inl e
      | Inr d \<Rightarrow>
          Inr (self\<lparr>degrees := degrees self @ [d],
                    operations := operations self @ [OpS (length (degrees self @ [d]) - 1)]\<rparr>))"

definition LazyInequality_divide :: "LazyInequality \<Rightarrow> ins \<Rightarrow> LazyInequality" where
  "LazyInequality_divide self d = self\<lparr>operations := operations self @ [OpD d]\<rparr>"

definition LazyInequality_multiply :: "LazyInequality \<Rightarrow> ins \<Rightarrow> LazyInequality" where
  "LazyInequality_multiply self f = self\<lparr>operations := operations self @ [OpM f]\<rparr>"

text \<open>
  What sits on the working stack of rule \<open>p\<close>: a \<open>LazyInequality\<close>, or the \<open>Inequality\<close>
  that an addition returned. The functions \<open>elem_...\<close> are the method calls on such an
  object, dispatched on its class.
\<close>

datatype elem = Lazy LazyInequality | Mat Inequality

fun elem_terms :: "elem \<Rightarrow> error + Term list" where
  "elem_terms (Lazy l) = LazyInequality_terms l"
| "elem_terms (Mat c) = Inr (terms c)"

fun elem_degree :: "elem \<Rightarrow> error + int" where
  "elem_degree (Lazy l) = LazyInequality_degree l"
| "elem_degree (Mat c) = Inr (degree c)"

text \<open>
  \<open>result.addWithFactor(factor, other)\<close> for \<open>other\<close> of either class: \<open>other.degree\<close> is
  read first, then \<open>other.terms\<close> is iterated.
\<close>

definition addWithFactor_elem :: "Inequality \<Rightarrow> int \<Rightarrow> elem \<Rightarrow> error + Inequality" where
  "addWithFactor_elem self factor other =
     (case elem_degree other of
        Inl e \<Rightarrow> Inl e
      | Inr d \<Rightarrow>
          (case elem_terms other of
             Inl e \<Rightarrow> Inl e
           | Inr ts \<Rightarrow> Inr (addWithFactor self factor ts d)))"

text \<open>\<open>LazyInequality.addWithFactor\<close>: materialize, then delegate.\<close>

definition LazyInequality_addWithFactor :: "LazyInequality \<Rightarrow> int \<Rightarrow> elem \<Rightarrow> error + Inequality" where
  "LazyInequality_addWithFactor self factor other =
     (case LazyInequality_degree self of
        Inl e \<Rightarrow> Inl e
      | Inr d \<Rightarrow>
          (case LazyInequality_terms self of
             Inl e \<Rightarrow> Inl e
           | Inr ts \<Rightarrow> addWithFactor_elem (Inequality_init ts d) factor other))"

fun elem_addWithFactor :: "elem \<Rightarrow> int \<Rightarrow> elem \<Rightarrow> error + elem" where
  "elem_addWithFactor (Lazy l) factor other = map_sum id Mat (LazyInequality_addWithFactor l factor other)"
| "elem_addWithFactor (Mat c) factor other = map_sum id Mat (addWithFactor_elem c factor other)"

text \<open>
  \<open>constraint.multiply(factor)\<close> and \<open>constraint.divide(divisor)\<close>. On an \<open>Inequality\<close>
  the arithmetic runs at once; a string operand is reported as \<open>TypeError\<close> (see
  \<open>apply_op\<close> for the string operand of a multiplication).
\<close>

fun elem_multiply :: "elem \<Rightarrow> ins \<Rightarrow> error + elem" where
  "elem_multiply (Lazy l) f = Inr (Lazy (LazyInequality_multiply l f))"
| "elem_multiply (Mat c) (Num f) = Inr (Mat (Inequality_multiply c f))"
| "elem_multiply (Mat c) _ = Inl TypeError"

fun elem_divide :: "elem \<Rightarrow> ins \<Rightarrow> error + elem" where
  "elem_divide (Lazy l) d = Inr (Lazy (LazyInequality_divide l d))"
| "elem_divide (Mat c) (Num d) = map_sum id Mat (Inequality_divide c d)"
| "elem_divide (Mat c) _ = Inl TypeError"

fun elem_saturate :: "elem \<Rightarrow> error + elem" where
  "elem_saturate (Lazy l) = map_sum id Lazy (LazyInequality_saturate l)"
| "elem_saturate (Mat c) = Inr (Mat (Inequality_saturate c))"

text \<open>\<open>LazyInequality.contract\<close> is \<open>pass\<close>.\<close>

fun elem_contract :: "elem \<Rightarrow> elem" where
  "elem_contract (Lazy l) = Lazy l"
| "elem_contract (Mat c) = Mat (Inequality_contract c)"

text \<open>
  \<open>Inequality.__eq__(self, other)\<close> for \<open>other\<close> of either class, and \<open>x == y\<close> for a stack
  element \<open>x\<close> and an \<open>Inequality\<close> \<open>y\<close>: \<open>LazyInequality\<close> defines no \<open>__eq__\<close>, so Python
  falls back on the reflected \<open>y.__eq__(x)\<close>.
\<close>

definition Inequality_eq_elem :: "Inequality \<Rightarrow> elem \<Rightarrow> error + bool" where
  "Inequality_eq_elem self other =
     (case other of
        Mat c \<Rightarrow> Inr (Inequality_eq self c)
      | Lazy l \<Rightarrow>
          (let self' = Inequality_contract self in
           case LazyInequality_degree l of
             Inl e \<Rightarrow> Inl e
           | Inr d \<Rightarrow>
               if degree self' \<noteq> d then Inr False
               else (case LazyInequality_terms l of
                       Inl e \<Rightarrow> Inl e
                     | Inr ts \<Rightarrow>
                         Inr (sort_key (\<lambda>x. \<bar>variable x\<bar>) (terms self')
                              = sort_key (\<lambda>x. \<bar>variable x\<bar>) ts))))"

definition elem_eq :: "elem \<Rightarrow> Inequality \<Rightarrow> error + bool" where
  "elem_eq x y =
     (case x of
        Mat c \<Rightarrow> Inr (Inequality_eq c y)
      | Lazy l \<Rightarrow> Inequality_eq_elem y (Lazy l))"

section \<open>rules.py\<close>

subsection \<open>Lines, words and integer literals\<close>

text \<open>
  \<open>line.strip().split()\<close> on an ASCII line: the words between runs of whitespace.
  \<open>words_from w cs\<close> scans \<open>cs\<close> with the current word \<open>w\<close> held in reverse.
\<close>

definition isspace :: "char \<Rightarrow> bool" where
  "isspace c = (c \<in> set [CHR '' '', CHR 0x09, CHR 0x0A, CHR 0x0B, CHR 0x0C, CHR 0x0D,
                          CHR 0x1C, CHR 0x1D, CHR 0x1E, CHR 0x1F])"

definition strip :: "string \<Rightarrow> string" where
  "strip line = rev (dropWhile isspace (rev (dropWhile isspace line)))"

fun words_from :: "string \<Rightarrow> string \<Rightarrow> string list" where
  "words_from w [] = (if w = [] then [] else [rev w])"
| "words_from w (c # cs) =
     (if isspace c then (if w = [] then words_from [] cs else rev w # words_from [] cs)
      else words_from (c # w) cs)"

definition split :: "string \<Rightarrow> string list" where
  "split line = words_from [] line"

text \<open>
  \<open>int(word)\<close> for a word without whitespace: an optional sign and one or more ASCII
  digits; \<open>None\<close> is the \<open>ValueError\<close>. (Python also takes digit groups joined by single
  underscores and non-ASCII digits; such words are outside this model.)
\<close>

definition digit_of :: "char \<Rightarrow> int option" where
  "digit_of c =
     (let n = (of_char c :: nat) in
      if of_char CHR ''0'' \<le> n \<and> n \<le> of_char CHR ''9''
      then Some (int n - int (of_char CHR ''0'' :: nat)) else None)"

fun digits_value :: "string \<Rightarrow> int \<Rightarrow> int option" where
  "digits_value [] acc = Some acc"
| "digits_value (c # cs) acc =
     (case digit_of c of None \<Rightarrow> None | Some v \<Rightarrow> digits_value cs (10 * acc + v))"

definition py_int :: "string \<Rightarrow> int option" where
  "py_int word =
     (case word of
        [] \<Rightarrow> None
      | c # cs \<Rightarrow>
          if c = CHR ''-'' then (if cs = [] then None else map_option uminus (digits_value cs 0))
          else if c = CHR ''+'' then (if cs = [] then None else digits_value cs 0)
          else digits_value word 0)"

subsection \<open>fallback_on_error\<close>

text \<open>
  The decorator \<open>fallback_on_error\<close>: when the decorated \<open>parse\<close> raises \<open>ValueError\<close>, the
  line is parsed again with the parsy parser of \<open>getParser()\<close>; a \<open>ParseError\<close> of that
  parser is raised, and otherwise the \<open>ValueError\<close>. Every other outcome of \<open>parse\<close> passes
  through. The parsy grammar runs in a library outside these sources, so the parser is
  the parameter \<open>getParser\<close>: \<open>Inr rejects\<close> when the call \<open>getParser()\<close> returns a
  parser, \<open>rejects line\<close> telling whether that parser raises \<open>ParseError\<close> on the line,
  and \<open>Inl e\<close> when the call itself raises \<open>e\<close> (the decorator catches only
  \<open>ParseError\<close> and \<open>AttributeError\<close>).
\<close>

definition fallback_on_error ::
  "error + (string \<Rightarrow> bool) \<Rightarrow> (string \<Rightarrow> error + 'a) \<Rightarrow> string \<Rightarrow> error + 'a" where
  "fallback_on_error getParser parse line =
     (case parse line of
        Inl e \<Rightarrow>
          if e = ValueError then
            (case getParser of
               Inl e' \<Rightarrow> Inl e'
             | Inr rejects \<Rightarrow> if rejects line then Inl ParseError else Inl ValueError)
          else Inl e
      | Inr r \<Rightarrow> Inr r)"

subsection \<open>IsContradiction\<close>

datatype IsContradiction = IsContradiction (constraintId: int)

text \<open>\<open>IsContradiction.parse\<close> (not decorated).\<close>

definition IsContradiction_parse :: "string \<Rightarrow> error + IsContradiction" where
  "IsContradiction_parse line =
     (let values = split (strip line) in
      if length values \<noteq> 2 then Inl ValueError
      else (case py_int (values ! 0) of
              None \<Rightarrow> Inl ValueError
            | Some n \<Rightarrow> Inr (IsContradiction n)))"

text \<open>
  The last stage of \<open>IsContradiction.getParser\<close>, \<open>constraintId << space << zero\<close>, on the
  words of the line: after the id the parsy parser demands the word \<open>0\<close>.
\<close>

definition IsContradiction_getParser_words :: "string list \<Rightarrow> bool" where
  "IsContradiction_getParser_words values =
     (case values of [i, z] \<Rightarrow> py_int i \<noteq> None \<and> z = ''0'' | _ \<Rightarrow> False)"

text \<open>\<open>IsContradiction.compute\<close> returns nothing, or raises.\<close>

definition IsContradiction_compute :: "IsContradiction \<Rightarrow> Inequality list \<Rightarrow> error + unit" where
  "IsContradiction_compute self antecedents =
     (case antecedents of
        [] \<Rightarrow> Inl IndexError
      | a # rest \<Rightarrow>
          if \<not> Inequality_isContradiction a then Inl ContradictionCheckFailed else Inr ())"

subsection \<open>LinearCombination\<close>

datatype LinearCombination = LinearCombination (factors: "int list") (antecedentIds: "int list")

text \<open>\<open>LinearCombination.compute\<close>; \<open>Inequality()\<close> has no terms and degree 0.\<close>

definition LinearCombination_compute :: "LinearCombination \<Rightarrow> Inequality list \<Rightarrow> Inequality list" where
  "LinearCombination_compute self antecedents =
     [fold (\<lambda>(factor, constraint) result. Inequality_addWithFactor result factor constraint)
           (zip (factors self) antecedents)
           (Inequality_init [] 0)]"

text \<open>
  \<open>Saturation.compute\<close> (rule \<open>s\<close>): the one constraint of the linear combination,
  saturated.
\<close>

definition Saturation_compute :: "LinearCombination \<Rightarrow> Inequality list \<Rightarrow> Inequality list" where
  "Saturation_compute self antecedents =
     (let constraint' = LinearCombination_compute self antecedents ! 0
      in [Inequality_saturate constraint'])"

subsection \<open>ReversePolishNotation\<close>

datatype ReversePolishNotation = ReversePolishNotation (instructions: "ins list")

text \<open>
  The loop of \<open>ReversePolishNotation.__init__\<close> from index \<open>i\<close> on: an operator \<open>*\<close> or
  \<open>d\<close> changes place with the instruction before it. At \<open>i = 0\<close> Python's index \<open>-1\<close> is
  the last position.
\<close>

function swap_loop :: "nat \<Rightarrow> ins list \<Rightarrow> ins list" where
  "swap_loop i instrs =
     (if i < length instrs then
        (let x = instrs ! i in
         if x = Times \<or> x = Div then
           (let j = (if i = 0 then length instrs - 1 else i - 1);
                instrs' = instrs[i := instrs ! j];
                instrs'' = instrs'[j := x]
            in swap_loop (Suc i) instrs'')
         else swap_loop (Suc i) instrs)
      else instrs)"
  by pat_completeness auto
termination
  by (relation "measure (\<lambda>(i, xs). length xs - i)") auto

declare swap_loop.simps [simp del]

definition ReversePolishNotation_init :: "ins list \<Rightarrow> ReversePolishNotation" where
  "ReversePolishNotation_init instrs = ReversePolishNotation (swap_loop 0 instrs)"

text \<open>The inner function \<open>f\<close> of \<open>ReversePolishNotation.parse\<close>.\<close>

definition f_word :: "string \<Rightarrow> error + ins" where
  "f_word word =
     (if word = ''+'' then Inr Plus
      else if word = ''*'' then Inr Times
      else if word = ''d'' then Inr Div
      else if word = ''s'' then Inr Sat
      else (case py_int word of None \<Rightarrow> Inl ValueError | Some n \<Rightarrow> Inr (Num n)))"

text \<open>The body of \<open>ReversePolishNotation.parse\<close>; \<open>sequence[-1]\<close> raises on an empty list.\<close>

definition ReversePolishNotation_parse_body :: "string \<Rightarrow> error + ReversePolishNotation" where
  "ReversePolishNotation_parse_body line =
     (case map_err f_word (split (strip line)) of
        Inl e \<Rightarrow> Inl e
      | Inr sequence \<Rightarrow>
          if sequence = [] then Inl IndexError
          else Inr (ReversePolishNotation_init
                      (if last sequence = Num 0 then butlast sequence else sequence)))"

text \<open>\<open>ReversePolishNotation.parse\<close>, decorated.\<close>

definition ReversePolishNotation_parse :: "(string \<Rightarrow> bool) \<Rightarrow> string \<Rightarrow> error + ReversePolishNotation" where
  "ReversePolishNotation_parse parser_rejects line =
     fallback_on_error (Inr parser_rejects) ReversePolishNotation_parse_body line"

text \<open>
  The stack guard inside \<open>ReversePolishNotation.getParser\<close>, on the tokens that the parsy
  parser reads: \<open>check\<close> updates the counter \<open>stackSize\<close> for one token and fails below 0;
  \<open>many()\<close> stops at the first failing token; \<open>finalCheck\<close> demands the counter 1.
  \<open>getParser_guard\<close> tells whether the whole token sequence gets through both.
\<close>

definition check :: "ins \<Rightarrow> int \<Rightarrow> bool \<times> int" where
  "check thing stackSize =
     (let stackSize' =
        (case thing of
           Num n \<Rightarrow> stackSize + 1
         | Sat \<Rightarrow> stackSize + 0
         | _ \<Rightarrow> stackSize - 1)
      in (\<not> stackSize' < 0, stackSize'))"

fun many_check :: "ins list \<Rightarrow> int \<Rightarrow> bool \<times> int" where
  "many_check [] stackSize = (True, stackSize)"
| "many_check (thing # rest) stackSize =
     (case check thing stackSize of
        (ok, stackSize') \<Rightarrow> if ok then many_check rest stackSize' else (False, stackSize'))"

definition finalCheck :: "int \<Rightarrow> bool" where
  "finalCheck stackSize = (\<not> stackSize \<noteq> 1)"

definition getParser_guard :: "ins list \<Rightarrow> bool" where
  "getParser_guard tokens =
     (case many_check tokens 0 of (all_read, stackSize) \<Rightarrow> all_read \<and> finalCheck stackSize)"

text \<open>
  \<open>ReversePolishNotation.compute\<close>: the loop over the instructions that are left, with the
  antecedents that are left and the working stack (its top is the head of the list).
  \<open>stack.pop()\<close> on an empty list raises \<open>IndexError\<close>, \<open>next\<close> on an exhausted iterator
  raises \<open>StopIteration\<close>.
\<close>

fun compute_loop :: "ins list \<Rightarrow> Inequality list \<Rightarrow> elem list \<Rightarrow> error + elem list" where
  "compute_loop [] antecedents stack = Inr stack"
| "compute_loop (Num n # it) antecedents stack =
     (case antecedents of
        [] \<Rightarrow> Inl StopIteration
      | a # antecedents' \<Rightarrow> compute_loop it antecedents' (Lazy (LazyInequality_init a) # stack))"
| "compute_loop (Plus # it) antecedents stack =
     (case stack of
        [] \<Rightarrow> Inl IndexError
      | [second] \<Rightarrow> Inl IndexError
      | second # first # stack' \<Rightarrow>
          (case elem_addWithFactor first 1 second of
             Inl e \<Rightarrow> Inl e
           | Inr r \<Rightarrow> compute_loop it antecedents (r # stack')))"
| "compute_loop (Times # it) antecedents stack =
     (case stack of
        [] \<Rightarrow> Inl IndexError
      | c # stack' \<Rightarrow>
          (case it of
             [] \<Rightarrow> Inl StopIteration
           | factor # it' \<Rightarrow>
               (case elem_multiply c factor of
                  Inl e \<Rightarrow> Inl e
                | Inr r \<Rightarrow> compute_loop it' antecedents (r # stack'))))"
| "compute_loop (Div # it) antecedents stack =
     (case stack of
        [] \<Rightarrow> Inl IndexError
      | c # stack' \<Rightarrow>
          (case it of
             [] \<Rightarrow> Inl StopIteration
           | divisor # it' \<Rightarrow>
               (case elem_divide c divisor of
                  Inl e \<Rightarrow> Inl e
                | Inr r \<Rightarrow> compute_loop it' antecedents (r # stack'))))"
| "compute_loop (Sat # it) antecedents stack =
     (case stack of
        [] \<Rightarrow> Inl IndexError
      | c # stack' \<Rightarrow>
          (case elem_saturate c of
             Inl e \<Rightarrow> Inl e
           | Inr r \<Rightarrow> compute_loop it antecedents (r # stack')))"

definition ReversePolishNotation_compute :: "ReversePolishNotation \<Rightarrow> Inequality list \<Rightarrow> error + elem list" where
  "ReversePolishNotation_compute self antecedents =
     (case compute_loop (instructions self) antecedents [] of
        Inl e \<Rightarrow> Inl e
      | Inr stack \<Rightarrow>
          (case stack of
             [x] \<Rightarrow> Inr [elem_contract x]
           | _ \<Rightarrow> Inl AssertionError))"

subsection \<open>LoadFormula and LoadFormulaWrapper\<close>

text \<open>
  \<open>LoadFormula.__init__(formula, numVars)\<close> stores the formula only. The wrapper's
  \<open>formula\<close> field is \<open>None\<close> once its \<open>getParser\<close> has run, hence the option.
\<close>

datatype LoadFormula = LoadFormula (formula: "Inequality list option")

definition LoadFormula_init :: "Inequality list option \<Rightarrow> int option \<Rightarrow> LoadFormula" where
  "LoadFormula_init frm numVars = LoadFormula frm"

definition LoadFormula_parse :: "string \<Rightarrow> Inequality list option \<Rightarrow> error + LoadFormula" where
  "LoadFormula_parse line frm =
     (let values = split (strip line) in
      if length values = 2 then
        (case py_int (values ! 0) of
           None \<Rightarrow> Inl ValueError
         | Some n \<Rightarrow> Inr (LoadFormula_init frm (Some n)))
      else if length values = 1 then Inr (LoadFormula_init frm None)
      else Inl ValueError)"

definition LoadFormula_compute :: "LoadFormula \<Rightarrow> Inequality list \<Rightarrow> Inequality list option" where
  "LoadFormula_compute self antecedents = formula self"

datatype LoadFormulaWrapper = LoadFormulaWrapper (wrapped_formula: "Inequality list option")

text \<open>
  \<open>LoadFormulaWrapper.getParser\<close> raises \<open>RuntimeError\<close> when the formula is gone. (It
  also sets the wrapper's formula to \<open>None\<close>; the model of \<open>parse\<close> returns the outcome of
  one call and does not follow the wrapper afterwards.)
\<close>

definition LoadFormulaWrapper_getParser ::
  "(string \<Rightarrow> bool) \<Rightarrow> LoadFormulaWrapper \<Rightarrow> error + (string \<Rightarrow> bool)" where
  "LoadFormulaWrapper_getParser parser_rejects self =
     (case wrapped_formula self of None \<Rightarrow> Inl RuntimeError | Some frm \<Rightarrow> Inr parser_rejects)"

text \<open>\<open>LoadFormulaWrapper.parse\<close>, decorated.\<close>

definition LoadFormulaWrapper_parse :: "(string \<Rightarrow> bool) \<Rightarrow> LoadFormulaWrapper \<Rightarrow> string \<Rightarrow> error + LoadFormula" where
  "LoadFormulaWrapper_parse parser_rejects self line =
     fallback_on_error (LoadFormulaWrapper_getParser parser_rejects self)
       (\<lambda>line. LoadFormula_parse line (wrapped_formula self)) line"

text \<open>
  \<open>ReversePolishNotation.AntecedentIterator\<close>, as the list it yields: the integer
  instructions in order, without the instruction that follows a \<open>*\<close> or a \<open>d\<close>.
\<close>

fun AntecedentIterator :: "ins list \<Rightarrow> int list" where
  "AntecedentIterator [] = []"
| "AntecedentIterator (Num n # it) = n # AntecedentIterator it"
| "AntecedentIterator (Times # []) = []"
| "AntecedentIterator (Times # x # it) = AntecedentIterator it"
| "AntecedentIterator (Div # []) = []"
| "AntecedentIterator (Div # x # it) = AntecedentIterator it"
| "AntecedentIterator (Plus # it) = AntecedentIterator it"
| "AntecedentIterator (Sat # it) = AntecedentIterator it"

section \<open>Properties of constraints\<close>

text \<open>
  The normal form of the class docstring and of the specification: no negative
  coefficient, and at most one term for each absolute variable. \<open>zero_free\<close> says that no
  term with coefficient 0 is stored.
\<close>

definition nonneg :: "Term list \<Rightarrow> bool" where
  "nonneg ts = list_all (\<lambda>t. 0 \<le> coefficient t) ts"

definition distinct_vars :: "Term list \<Rightarrow> bool" where
  "distinct_vars ts = distinct (map (\<lambda>t. \<bar>variable t\<bar>) ts)"

definition normal_form :: "Inequality \<Rightarrow> bool" where
  "normal_form C = (nonneg (terms C) \<and> distinct_vars (terms C))"

definition zero_free :: "Term list \<Rightarrow> bool" where
  "zero_free ts = list_all (\<lambda>t. coefficient t \<noteq> 0) ts"

text \<open>
  The linear form that a term list stands for, with every literal \<open>\<not>x\<close> written as
  \<open>1 - x\<close>: the coefficient of the variable \<open>k\<close>, and the constant that the negated
  literals contribute.
\<close>

definition signed_coefficient :: "Term \<Rightarrow> int" where
  "signed_coefficient t = copysign (coefficient t) (variable t)"

definition coefficient_at :: "Term list \<Rightarrow> int \<Rightarrow> int" where
  "coefficient_at ts k = (\<Sum>t\<leftarrow>ts. if \<bar>variable t\<bar> = k then signed_coefficient t else 0)"

definition negative_mass :: "Term list \<Rightarrow> int" where
  "negative_mass ts = (\<Sum>t\<leftarrow>ts. if variable t < 0 then coefficient t else 0)"

text \<open>
  A sequence of rule \<open>p\<close> made of ids and \<open>+\<close> only that is well formed on a stack of
  \<open>n\<close> elements: every \<open>+\<close> finds two elements, and one element is left at the end.
\<close>

fun plus_sequence :: "ins list \<Rightarrow> nat \<Rightarrow> bool" where
  "plus_sequence [] n = (n = 1)"
| "plus_sequence (Num i # it) n = plus_sequence it (Suc n)"
| "plus_sequence (Plus # it) n = (2 \<le> n \<and> plus_sequence it (n - 1))"
| "plus_sequence (x # it) n = False"


text \<open>
  What the elements of the working stack look like while a sequence of ids and \<open>+\<close> runs
  on antecedents in normal form without zero terms: a \<open>LazyInequality\<close> has no recorded
  operation, and an \<open>Inequality\<close> is in normal form and either has its dictionary cached
  or stores no zero term. \<open>view_terms\<close> and \<open>view_degree\<close> are the terms and the degree
  that such an element shows.
\<close>

fun settled_elem :: "elem \<Rightarrow> bool" where
  "settled_elem (Lazy l) =
     (operations l = [] \<and> normal_form (constraint l) \<and> zero_free (terms (constraint l)))"
| "settled_elem (Mat c) = (normal_form c \<and> (dict_cached c \<or> zero_free (terms c)))"

fun view_terms :: "elem \<Rightarrow> Term list" where
  "view_terms (Lazy l) = terms (constraint l)"
| "view_terms (Mat c) = terms c"

fun view_degree :: "elem \<Rightarrow> int" where
  "view_degree (Lazy l) = degree (constraint l)"
| "view_degree (Mat c) = degree c"

section \<open>Saturation\<close>

lemma saturate_coefficient_bound:
  "t \<in> set (terms (Inequality_saturate C)) \<Longrightarrow> coefficient t \<le> max 0 (degree C)"
  by (auto simp: Inequality_saturate_def)

lemma saturate_nonnegative_degree:
  "0 \<le> degree C \<Longrightarrow>
   terms (Inequality_saturate C)
     = map (\<lambda>t. Term (min (coefficient t) (max 0 (degree C))) (variable t)) (terms C)"
  by (simp add: Inequality_saturate_def max_def)

text \<open>
  C1. \<open>saturate()\<close> is claimed to replace each coefficient by
  \<open>min(coefficient, max(0, degree))\<close>, so that a degree \<open>\<le> 0\<close> leaves only coefficients 0.
  The code takes \<open>min(coefficient, degree)\<close>: on the constraint \<open>5 x1 \<ge> -3\<close> the
  coefficient becomes \<open>-3\<close>, in \<open>Inequality.saturate\<close>, in rule \<open>s\<close> on that constraint,
  and in the terms that a \<open>LazyInequality\<close> shows after recording a saturate op.
\<close>

theorem saturate_negative_degree:
  "Inequality_saturate (Inequality_init [Term 5 1] (- 3))
     = \<lparr>terms = [Term (- 3) 1], degree = - 3, dict_cached = True\<rparr>
   \<and> Saturation_compute (LinearCombination [1] [1]) [Inequality_init [Term 5 1] (- 3)]
     = [\<lparr>terms = [Term (- 3) 1], degree = - 3, dict_cached = True\<rparr>]
   \<and> LazyInequality_saturate (LazyInequality_init (Inequality_init [Term 5 1] (- 3)))
     = Inr \<lparr>constraint = Inequality_init [Term 5 1] (- 3), operations = [OpS 0], degrees = [- 3]\<rparr>
   \<and> LazyInequality_terms
        \<lparr>constraint = Inequality_init [Term 5 1] (- 3), operations = [OpS 0], degrees = [- 3]\<rparr>
     = Inr [Term (- 3) 1]"
  by (simp add: Inequality_saturate_def Inequality_init_def LazyInequality_saturate_def
      LazyInequality_init_def LazyInequality_apply_def LazyInequality_terms_def applyTerm_def
      Saturation_compute_def LinearCombination_compute_def Inequality_addWithFactor_def
      addWithFactor_def add_term_def)

section \<open>Multiplication followed by division\<close>

lemma ceil_div_mult: "d \<ge> 1 \<Longrightarrow> ((c::int) * d + d - 1) div d = c"
proof -
  assume d: "d \<ge> 1"
  have "(c * d + d - 1) div d = (d - 1 + c * d) div d" by (simp add: algebra_simps)
  also have "\<dots> = (d - 1) div d + c" using d by (subst div_mult_self1) auto
  also have "(d - 1) div d = 0" using d by simp
  finally show ?thesis by simp
qed

lemma Inequality_eq_refl: "Inequality_eq C C"
  by (simp add: Inequality_eq_def Let_def)

text \<open>
  C8. For every constraint \<open>C\<close> whose coefficients are all non-negative and every divisor
  \<open>d \<ge> 1\<close>, \<open>C.multiply(d).divide(d)\<close> does not raise, gives back the degree and every
  coefficient of \<open>C\<close>, and is structurally equal (\<open>__eq__\<close>) to \<open>C\<close>.
\<close>

theorem multiply_divide_inverse:
  assumes "\<forall>t \<in> set (terms C). coefficient t \<ge> 0" and "d \<ge> 1"
  shows "Inequality_divide (Inequality_multiply C d) d = Inr C
         \<and> map_sum id (\<lambda>C'. Inequality_eq C' C) (Inequality_divide (Inequality_multiply C d) d)
           = Inr True"
proof -
  have "map ((\<lambda>t. Term ((coefficient t + d - 1) div d) (variable t)) \<circ>
             (\<lambda>t. Term (coefficient t * d) (variable t))) (terms C) = terms C"
    using assms(2) by (intro map_idI) (simp add: ceil_div_mult)
  then have "Inequality_divide (Inequality_multiply C d) d = Inr C"
    using assms(2) by (simp add: Inequality_divide_def Inequality_multiply_def ceil_div_mult)
  then show ?thesis using Inequality_eq_refl by simp
qed

theorem multiply_divide_inverse_witness:
  "list_all (\<lambda>t. coefficient t \<ge> 0)
      (terms \<lparr>terms = [Term 2 1, Term 3 (- 2)], degree = 4, dict_cached = False\<rparr>)
   \<and> (1::int) \<le> 5
   \<and> Inequality_divide
       (Inequality_multiply \<lparr>terms = [Term 2 1, Term 3 (- 2)], degree = 4, dict_cached = False\<rparr> 5) 5
     = Inr \<lparr>terms = [Term 2 1, Term 3 (- 2)], degree = 4, dict_cached = False\<rparr>"
  using multiply_divide_inverse
    [of "\<lparr>terms = [Term 2 1, Term 3 (- 2)], degree = 4, dict_cached = False\<rparr>" 5]
  by simp

section \<open>Parsing of proof lines\<close>

text \<open>
  C3. A \<open>p\<close> line whose sequence pops from an empty stack, or leaves a stack of a size
  other than 1, is claimed to fail in parsing and never to reach \<open>compute\<close>.
  \<open>ReversePolishNotation.parse\<close> splits the line and builds the rule without looking at
  the stack: \<open>p 1 +\<close> and \<open>p 1 2\<close> both parse, and \<open>compute\<close> then fails on the empty
  stack (\<open>IndexError\<close>) and on its own assertion. The stack guard of \<open>getParser\<close>, which
  \<open>parse\<close> consults only after a \<open>ValueError\<close>, turns both sequences down.
\<close>

theorem rpn_parse_accepts_imbalanced:
  "ReversePolishNotation_parse parser_rejects '' 1 +'' = Inr (ReversePolishNotation [Num 1, Plus])
   \<and> ReversePolishNotation_compute (ReversePolishNotation [Num 1, Plus]) [c] = Inl IndexError
   \<and> ReversePolishNotation_parse parser_rejects '' 1 2'' = Inr (ReversePolishNotation [Num 1, Num 2])
   \<and> ReversePolishNotation_compute (ReversePolishNotation [Num 1, Num 2]) [c, c'] = Inl AssertionError
   \<and> \<not> getParser_guard [Num 1, Plus] \<and> \<not> getParser_guard [Num 1, Num 2]"
  by (simp add: ReversePolishNotation_parse_def fallback_on_error_def
      ReversePolishNotation_parse_body_def split_def strip_def isspace_def f_word_def py_int_def
      digit_of_def ReversePolishNotation_init_def swap_loop.simps ReversePolishNotation_compute_def
      getParser_guard_def check_def finalCheck_def)

text \<open>
  C4. The operand of every \<open>d\<close> in an accepted \<open>p\<close> line is claimed to be an integer
  \<open>\<ge> 1\<close>. The line \<open>p 1 0 d\<close> is accepted by \<open>parse\<close>, and its tokens pass the stack guard
  of \<open>getParser\<close>; \<open>compute\<close> records \<open>divide(0)\<close> in the pipeline of the
  \<open>LazyInequality\<close> it returns, and reading the degree of that result divides by zero.
\<close>

theorem rpn_divisor_zero_accepted:
  "ReversePolishNotation_parse parser_rejects '' 1 0 d''
     = Inr (ReversePolishNotation [Num 1, Div, Num 0])
   \<and> getParser_guard [Num 1, Num 0, Div]
   \<and> ReversePolishNotation_compute (ReversePolishNotation [Num 1, Div, Num 0]) [c]
     = Inr [Lazy \<lparr>constraint = c, operations = [OpD (Num 0)], degrees = []\<rparr>]
   \<and> LazyInequality_degree \<lparr>constraint = c, operations = [OpD (Num 0)], degrees = []\<rparr>
     = Inl ZeroDivisionError"
  by (simp add: ReversePolishNotation_parse_def fallback_on_error_def
      ReversePolishNotation_parse_body_def split_def strip_def isspace_def f_word_def py_int_def
      digit_of_def ReversePolishNotation_init_def swap_loop.simps ReversePolishNotation_compute_def
      getParser_guard_def check_def finalCheck_def LazyInequality_init_def LazyInequality_divide_def
      LazyInequality_degree_def LazyInequality_apply_def)

text \<open>
  C5. A \<open>c\<close> line is claimed to parse only with the terminator \<open>0\<close> after the id.
  \<open>IsContradiction.parse\<close> counts two words and converts the first one; the line \<open>c 3 7\<close>
  gives the rule for constraint 3, although the grammar of \<open>getParser\<close> wants the word
  \<open>0\<close> there.
\<close>

theorem contradiction_parse_ignores_terminator:
  "IsContradiction_parse '' 3 7'' = Inr (IsContradiction 3)
   \<and> split (strip '' 3 7'') = [''3'', ''7'']
   \<and> \<not> IsContradiction_getParser_words [''3'', ''7'']"
  by (simp add: IsContradiction_parse_def split_def strip_def isspace_def py_int_def digit_of_def
      IsContradiction_getParser_words_def)

text \<open>
  C10. An \<open>f\<close> line of two words whose first word is an integer literal \<open>N\<close> is accepted
  by \<open>LoadFormulaWrapper.parse\<close> whatever \<open>N\<close> is: \<open>N\<close> is not compared with the number
  of constraints of the formula, \<open>LoadFormula.__init__\<close> drops it, and \<open>compute\<close> returns
  the formula of the wrapper unchanged.
\<close>

theorem load_formula_count_unchecked:
  assumes "split (strip line) = [w, z]" and "py_int w = Some N"
  shows "LoadFormulaWrapper_parse parser_rejects (LoadFormulaWrapper F) line = Inr (LoadFormula F)
         \<and> LoadFormula_init F (Some N) = LoadFormula F
         \<and> LoadFormula_compute (LoadFormula F) antecedents = F"
  using assms
  by (simp add: LoadFormulaWrapper_parse_def fallback_on_error_def LoadFormula_parse_def
      LoadFormula_init_def LoadFormula_compute_def)

theorem load_formula_count_unchecked_witness:
  "split (strip '' 7 0'') = [''7'', ''0''] \<and> py_int ''7'' = Some 7
   \<and> LoadFormulaWrapper_parse (\<lambda>line. True)
        (LoadFormulaWrapper (Some [Inequality_init [Term 1 1] 1])) '' 7 0''
     = Inr (LoadFormula (Some [Inequality_init [Term 1 1] 1]))
   \<and> LoadFormula_compute (LoadFormula (Some [Inequality_init [Term 1 1] 1])) []
     = Some [Inequality_init [Term 1 1] 1]"
proof -
  have 1: "split (strip '' 7 0'') = [''7'', ''0'']"
    by (simp add: split_def strip_def isspace_def)
  have 2: "py_int ''7'' = Some 7"
    by (simp add: py_int_def digit_of_def)
  show ?thesis
    using 1 2 load_formula_count_unchecked [OF 1 2] by simp
qed

section \<open>Construction and the negation rewrite\<close>

lemma normalize_eq:
  "Inequality_normalize ts d =
     (map (\<lambda>t. if coefficient t < 0 then Term (- coefficient t) (- variable t) else t) ts,
      d + (\<Sum>t\<leftarrow>ts. if coefficient t < 0 then AllBooleanUpperBound \<bar>variable t\<bar> * (- coefficient t) else 0))"
  by (induction ts arbitrary: d) (auto simp: Let_def AllBooleanUpperBound_def)

text \<open>
  C9, as stated: the constraint built from \<open>(-c, v)\<close> with degree \<open>d\<close> equals the one
  built from \<open>(c, -v)\<close> with degree \<open>d + c * ub(|v|)\<close>, for every \<open>c \<ge> 0\<close>. At
  \<open>c = 0\<close> the coefficient \<open>-0\<close> is not negative, \<open>Inequality_normalize\<close> leaves the literal
  \<open>v\<close> alone, and \<open>__eq__\<close> (whose \<open>contract\<close> does nothing on a fresh constraint)
  tells \<open>(0, 1)\<close> from \<open>(0, -1)\<close>.
\<close>

theorem negation_roundtrip_counterexample:
  "\<not> Inequality_eq (Inequality_init [Term (- 0) 1] 5)
        (Inequality_init [Term 0 (- 1)] (5 + 0 * AllBooleanUpperBound \<bar>1\<bar>))"
  by (simp add: Inequality_eq_def Inequality_init_def Inequality_contract_def)

text \<open>
  C9, amended: for every coefficient \<open>c \<ge> 1\<close>, literal \<open>v\<close> and degree \<open>d\<close>, the
  constraint built from \<open>(-c, v)\<close> with degree \<open>d\<close> is the one built from \<open>(c, -v)\<close>
  with degree \<open>d + c * ub(|v|)\<close>, and the two are equal under \<open>__eq__\<close>. Construction
  applies the negation rewrite and nothing else: every term with a negative coefficient
  has coefficient and literal negated, every other term is kept, in the same order, and
  the degree grows by \<open>ub(|v|) * |c|\<close> for each rewritten term.
\<close>

theorem negation_roundtrip:
  assumes "c \<ge> 1"
  shows "Inequality_init [Term (- c) v] d
           = Inequality_init [Term c (- v)] (d + c * AllBooleanUpperBound \<bar>v\<bar>)
         \<and> Inequality_eq (Inequality_init [Term (- c) v] d)
             (Inequality_init [Term c (- v)] (d + c * AllBooleanUpperBound \<bar>v\<bar>))
         \<and> Inequality_init ts d' =
             \<lparr>terms = map (\<lambda>t. if coefficient t < 0 then Term (- coefficient t) (- variable t) else t) ts,
              degree = d' + (\<Sum>t\<leftarrow>ts. if coefficient t < 0
                                     then AllBooleanUpperBound \<bar>variable t\<bar> * (- coefficient t) else 0),
              dict_cached = False\<rparr>"
proof -
  have 1: "Inequality_init [Term (- c) v] d
           = Inequality_init [Term c (- v)] (d + c * AllBooleanUpperBound \<bar>v\<bar>)"
    using assms by (simp add: Inequality_init_def AllBooleanUpperBound_def)
  have 2: "Inequality_eq (Inequality_init [Term (- c) v] d)
             (Inequality_init [Term c (- v)] (d + c * AllBooleanUpperBound \<bar>v\<bar>))"
    unfolding 1 by (simp add: Inequality_eq_def Let_def)
  show ?thesis using 1 2 by (simp add: Inequality_init_def normalize_eq)
qed

theorem negation_roundtrip_witness:
  "(1::int) \<le> 4
   \<and> Inequality_init [Term (- 4) 2] 3 = Inequality_init [Term 4 (- 2)] 7
   \<and> Inequality_eq (Inequality_init [Term (- 4) 2] 3) (Inequality_init [Term 4 (- 2)] 7)"
proof -
  have "(1::int) \<le> 4" by simp
  from negation_roundtrip [OF this, of 2 3 "[]" 0] show ?thesis
    by (simp add: AllBooleanUpperBound_def Inequality_eq_def Let_def)
qed

section \<open>The normal form under the operations\<close>

lemma abs_copysign [simp]: "\<bar>copysign a b\<bar> = \<bar>a\<bar>"
  by (simp add: copysign_def)

lemma dict_index_Some: "dict_index ts k = Some i \<Longrightarrow> i < length ts \<and> \<bar>variable (ts ! i)\<bar> = k"
  by (induction ts arbitrary: i) (auto split: option.splits if_splits)

lemma dict_index_None: "dict_index ts k = None \<longleftrightarrow> k \<notin> set (map (\<lambda>t. \<bar>variable t\<bar>) ts)"
  by (induction ts) (auto split: option.splits)

lemma nonneg_normalize: "nonneg (fst (Inequality_normalize ts d))"
  by (auto simp: normalize_eq nonneg_def list_all_iff)

lemma distinct_vars_normalize: "distinct_vars (fst (Inequality_normalize ts d)) = distinct_vars ts"
proof -
  have "map (\<lambda>t. \<bar>variable t\<bar>) (fst (Inequality_normalize ts d)) = map (\<lambda>t. \<bar>variable t\<bar>) ts"
    by (simp add: normalize_eq)
  then show ?thesis by (simp add: distinct_vars_def)
qed

lemma nonneg_add_term:
  "nonneg (terms self) \<Longrightarrow> 0 \<le> coefficient other \<Longrightarrow> nonneg (terms (add_term other self))"
  by (auto simp: add_term_def nonneg_def list_all_iff Let_def set_update_subset_insert
      split: option.splits dest!: set_update_subset_insert [THEN subsetD])

lemma distinct_vars_add_term:
  assumes "distinct_vars (terms self)"
  shows "distinct_vars (terms (add_term other self))"
proof (cases "dict_index (terms self) \<bar>variable other\<bar>")
  case None
  then have "\<bar>variable other\<bar> \<notin> set (map (\<lambda>t. \<bar>variable t\<bar>) (terms self))"
    by (rule dict_index_None [THEN iffD1])
  then show ?thesis
    using assms by (simp add: add_term_def None distinct_vars_def)
next
  case (Some i)
  then have i: "i < length (terms self)" "\<bar>variable (terms self ! i)\<bar> = \<bar>variable other\<bar>"
    using dict_index_Some by blast+
  have "map (\<lambda>t. \<bar>variable t\<bar>) ((terms self)[i := Term c (copysign \<bar>variable (terms self ! i)\<bar> s)])
        = map (\<lambda>t. \<bar>variable t\<bar>) (terms self)" for c s
    using i by (simp add: map_update list_update_same_conv)
  then show ?thesis
    using assms Some i by (simp add: add_term_def distinct_vars_def Let_def)
qed

lemma nonneg_Cons [simp]: "nonneg (t # ts) = (0 \<le> coefficient t \<and> nonneg ts)"
  by (simp add: nonneg_def)

lemma nonneg_fold_add_term:
  "nonneg (terms self) \<Longrightarrow> nonneg ts \<Longrightarrow> nonneg (terms (fold add_term ts self))"
  by (induction ts arbitrary: self) (simp_all add: nonneg_add_term)

lemma distinct_vars_fold_add_term:
  "distinct_vars (terms self) \<Longrightarrow> distinct_vars (terms (fold add_term ts self))"
  by (induction ts arbitrary: self) (auto simp: distinct_vars_add_term)

lemma normal_form_addWithFactor:
  assumes "normal_form self" and "nonneg other_terms" and "0 \<le> factor"
  shows "normal_form (addWithFactor self factor other_terms other_degree)"
proof -
  have "nonneg (map (\<lambda>x. Term (factor * coefficient x) (variable x)) other_terms)"
    using assms(2,3) by (simp add: nonneg_def list_all_iff)
  then show ?thesis
    using assms(1)
    by (simp add: normal_form_def addWithFactor_def nonneg_fold_add_term distinct_vars_fold_add_term)
qed

lemma dict_set_fresh: "k \<notin> fst ` set d \<Longrightarrow> dict_set k v d = d @ [(k, v)]"
  by (induction d) auto

lemma dict_distinct_vars: "distinct_vars ts \<Longrightarrow> dict ts = map (\<lambda>t. (\<bar>variable t\<bar>, t)) ts"
proof (induction ts rule: rev_induct)
  case Nil
  then show ?case by (simp add: dict_def)
next
  case (snoc t ts)
  then have IH: "dict ts = map (\<lambda>t. (\<bar>variable t\<bar>, t)) ts"
    and fresh: "\<bar>variable t\<bar> \<notin> (\<lambda>t. \<bar>variable t\<bar>) ` set ts"
    by (auto simp: distinct_vars_def)
  have "dict (ts @ [t]) = dict_set \<bar>variable t\<bar> t (dict ts)"
    by (simp add: dict_def)
  also have "\<dots> = dict ts @ [(\<bar>variable t\<bar>, t)]"
    using fresh by (intro dict_set_fresh) (auto simp: IH image_iff)
  finally show ?case by (simp add: IH)
qed

lemma contract_normal_form:
  assumes "distinct_vars (terms C)"
  shows "Inequality_contract C =
           (if dict_cached C
            then C\<lparr>terms := filter (\<lambda>x. coefficient x \<noteq> 0) (terms C), dict_cached := False\<rparr>
            else C)"
  using assms by (simp add: Inequality_contract_def dict_distinct_vars comp_def)

lemma nonneg_filter: "nonneg ts \<Longrightarrow> nonneg (filter P ts)"
  by (simp add: nonneg_def list_all_iff)

lemma distinct_vars_filter: "distinct_vars ts \<Longrightarrow> distinct_vars (filter P ts)"
  by (simp add: distinct_vars_def distinct_map_filter)

lemma normal_form_contract: "normal_form C \<Longrightarrow> normal_form (Inequality_contract C)"
  by (simp add: normal_form_def contract_normal_form nonneg_filter distinct_vars_filter)

lemma normal_form_saturate:
  "normal_form C \<Longrightarrow> 0 \<le> degree C \<Longrightarrow> normal_form (Inequality_saturate C)"
  by (simp add: normal_form_def Inequality_saturate_def nonneg_def distinct_vars_def
      list_all_iff comp_def)

lemma normal_form_multiply:
  "normal_form C \<Longrightarrow> 0 \<le> f \<Longrightarrow> normal_form (Inequality_multiply C f)"
  by (simp add: normal_form_def Inequality_multiply_def nonneg_def distinct_vars_def
      list_all_iff comp_def)

lemma normal_form_divide:
  "normal_form C \<Longrightarrow> 1 \<le> d \<Longrightarrow>
   Inequality_divide C d = Inr (C\<lparr>terms := map (\<lambda>t. Term ((coefficient t + d - 1) div d) (variable t)) (terms C),
                    degree := (degree C + d - 1) div d\<rparr>) \<and>
   normal_form (C\<lparr>terms := map (\<lambda>t. Term ((coefficient t + d - 1) div d) (variable t)) (terms C),
                    degree := (degree C + d - 1) div d\<rparr>)"
  by (auto simp: normal_form_def Inequality_divide_def nonneg_def distinct_vars_def
      list_all_iff comp_def pos_imp_zdiv_nonneg_iff)

text \<open>
  C2, as stated: every constraint that a public operation produces has non-negative
  coefficients and at most one term for each absolute variable. Construction keeps two
  input terms on the same variable apart, and \<open>saturate\<close> on a negative degree makes
  the coefficients negative.
\<close>

theorem normal_form_counterexample:
  "\<not> normal_form (Inequality_init [Term 1 1, Term 1 1] 1)
   \<and> normal_form (Inequality_init [Term 5 1] (- 3))
   \<and> \<not> normal_form (Inequality_saturate (Inequality_init [Term 5 1] (- 3)))"
  by (simp add: normal_form_def nonneg_def distinct_vars_def Inequality_init_def
      Inequality_saturate_def)

text \<open>
  C2, amended: construction from terms on pairwise different absolute variables gives a
  constraint in normal form; and on constraints in normal form, \<open>addWithFactor\<close> with a
  factor \<open>\<ge> 1\<close> and an operand in normal form, \<open>saturate\<close> on a degree \<open>\<ge> 0\<close>,
  \<open>divide\<close> by \<open>d \<ge> 1\<close>, \<open>multiply\<close> by \<open>f \<ge> 1\<close> and \<open>contract\<close> give a
  constraint in normal form again.
\<close>

theorem normal_form_preserved:
  "(distinct_vars ts \<longrightarrow> normal_form (Inequality_init ts d))
   \<and> (normal_form self \<and> normal_form other \<and> 1 \<le> factor
        \<longrightarrow> normal_form (Inequality_addWithFactor self factor other))
   \<and> (normal_form C \<and> 0 \<le> degree C \<longrightarrow> normal_form (Inequality_saturate C))
   \<and> (normal_form C \<and> 1 \<le> dv \<longrightarrow> map_sum id normal_form (Inequality_divide C dv) = Inr True)
   \<and> (normal_form C \<and> 1 \<le> f \<longrightarrow> normal_form (Inequality_multiply C f))
   \<and> (normal_form C \<longrightarrow> normal_form (Inequality_contract C))"
proof -
  have "distinct_vars ts \<Longrightarrow> normal_form (Inequality_init ts d)"
    using nonneg_normalize [of ts d] distinct_vars_normalize [of ts d]
    by (cases "Inequality_normalize ts d") (simp add: normal_form_def Inequality_init_def)
  moreover have "normal_form self \<Longrightarrow> normal_form other \<Longrightarrow> 1 \<le> factor
        \<Longrightarrow> normal_form (Inequality_addWithFactor self factor other)"
    using normal_form_addWithFactor [of self "terms other" factor "degree other"]
    by (simp add: Inequality_addWithFactor_def) (simp add: normal_form_def)
  moreover have "normal_form C \<Longrightarrow> 1 \<le> dv
        \<Longrightarrow> map_sum id normal_form (Inequality_divide C dv) = Inr True"
    using normal_form_divide [of C dv] by simp
  ultimately show ?thesis
    using normal_form_saturate normal_form_multiply [of C f] normal_form_contract
    by simp
qed

theorem normal_form_preserved_witness:
  "normal_form (Inequality_init [Term (- 2) 1, Term 3 (- 2)] 1)
   \<and> normal_form (Inequality_addWithFactor
        \<lparr>terms = [Term 1 1], degree = 1, dict_cached = False\<rparr> 2
        \<lparr>terms = [Term 2 (- 1), Term 1 3], degree = 2, dict_cached = False\<rparr>)
   \<and> normal_form (Inequality_saturate \<lparr>terms = [Term 5 1, Term 1 (- 2)], degree = 2, dict_cached = False\<rparr>)
   \<and> map_sum id normal_form
        (Inequality_divide \<lparr>terms = [Term 5 1, Term 1 (- 2)], degree = 2, dict_cached = False\<rparr> 2)
       = Inr True
   \<and> normal_form (Inequality_multiply \<lparr>terms = [Term 5 1, Term 1 (- 2)], degree = 2, dict_cached = False\<rparr> 3)
   \<and> normal_form (Inequality_contract \<lparr>terms = [Term 5 1, Term 1 (- 2)], degree = 2, dict_cached = False\<rparr>)"
  using normal_form_preserved
    [of "[Term (- 2) 1, Term 3 (- 2)]" 1
        "\<lparr>terms = [Term 1 1], degree = 1, dict_cached = False\<rparr>"
        "\<lparr>terms = [Term 2 (- 1), Term 1 3], degree = 2, dict_cached = False\<rparr>" 2
        "\<lparr>terms = [Term 5 1, Term 1 (- 2)], degree = 2, dict_cached = False\<rparr>" 2 3]
  by (simp add: normal_form_def nonneg_def distinct_vars_def)

section \<open>The linear form of a sum\<close>

lemma sum_list_update_int:
  "i < length xs \<Longrightarrow> sum_list (xs[i := y]) = sum_list xs - xs ! i + (y::int)"
  by (induction xs arbitrary: i) (auto split: nat.splits)

lemma coefficient_at_append:
  "coefficient_at (ts @ [t]) k
     = coefficient_at ts k + (if \<bar>variable t\<bar> = k then signed_coefficient t else 0)"
  by (simp add: coefficient_at_def)

lemma coefficient_at_update:
  "i < length ts \<Longrightarrow>
   coefficient_at (ts[i := t]) k
     = coefficient_at ts k
       - (if \<bar>variable (ts ! i)\<bar> = k then signed_coefficient (ts ! i) else 0)
       + (if \<bar>variable t\<bar> = k then signed_coefficient t else 0)"
  unfolding coefficient_at_def by (simp only: map_update sum_list_update_int length_map nth_map)

lemma negative_mass_append:
  "negative_mass (ts @ [t]) = negative_mass ts + (if variable t < 0 then coefficient t else 0)"
  by (simp add: negative_mass_def)

lemma negative_mass_update:
  "i < length ts \<Longrightarrow>
   negative_mass (ts[i := t])
     = negative_mass ts
       - (if variable (ts ! i) < 0 then coefficient (ts ! i) else 0)
       + (if variable t < 0 then coefficient t else 0)"
  unfolding negative_mass_def by (simp only: map_update sum_list_update_int length_map nth_map)

lemma merged_signed_coefficient:
  assumes "\<bar>v\<bar> = \<bar>w\<bar>"
  shows "signed_coefficient (Term \<bar>copysign c v + copysign e w\<bar> (copysign \<bar>v\<bar> (copysign c v + copysign e w)))
         = copysign c v + copysign e w"
  using assms by (auto simp: signed_coefficient_def copysign_def split: if_splits)

lemma merged_negative_mass:
  assumes "\<bar>v\<bar> = \<bar>w\<bar>" and "0 \<le> c" and "0 \<le> e"
  shows "max 0 (max c e - \<bar>copysign c v + copysign e w\<bar>)
         + (if copysign \<bar>v\<bar> (copysign c v + copysign e w) < 0 then \<bar>copysign c v + copysign e w\<bar> else 0)
         - (if v < 0 then c else 0)
         = (if w < 0 then e else 0)"
  using assms by (auto simp: copysign_def split: if_splits)


lemma add_term_Some:
  assumes "dict_index (terms self) \<bar>variable other\<bar> = Some i"
    and "my = terms self ! i"
    and "s = copysign (coefficient my) (variable my) + copysign (coefficient other) (variable other)"
  shows "add_term other self =
           self\<lparr>terms := (terms self)[i := Term \<bar>s\<bar> (copysign \<bar>variable my\<bar> s)],
                degree := degree self - max 0 (max (coefficient my) (coefficient other) - \<bar>s\<bar>),
                dict_cached := True\<rparr>"
  using assms dict_index_Some [OF assms(1)]
  by (simp add: add_term_def Let_def AllBooleanUpperBound_def)

lemma add_term_coefficient_at:
  "coefficient_at (terms (add_term other self)) k
     = coefficient_at (terms self) k
       + (if \<bar>variable other\<bar> = k then signed_coefficient other else 0)"
proof (cases "dict_index (terms self) \<bar>variable other\<bar>")
  case None
  then show ?thesis
    by (simp add: add_term_def coefficient_at_append signed_coefficient_def)
next
  case (Some i)
  define my where "my = terms self ! i"
  define s where
    "s = copysign (coefficient my) (variable my) + copysign (coefficient other) (variable other)"
  have i: "i < length (terms self)" and v: "\<bar>variable my\<bar> = \<bar>variable other\<bar>"
    using dict_index_Some [OF Some] by (simp_all add: my_def)
  have new: "signed_coefficient (Term \<bar>s\<bar> (copysign \<bar>variable my\<bar> s)) = s"
    unfolding s_def by (rule merged_signed_coefficient [OF v])
  have old: "signed_coefficient my = copysign (coefficient my) (variable my)"
    and oth: "signed_coefficient other = copysign (coefficient other) (variable other)"
    by (simp_all add: signed_coefficient_def)
  have "coefficient_at (terms (add_term other self)) k
        = coefficient_at (terms self) k
          - (if \<bar>variable my\<bar> = k then signed_coefficient my else 0)
          + (if \<bar>variable my\<bar> = k then s else 0)"
    using i new
    by (auto simp: add_term_Some [OF Some my_def s_def] coefficient_at_update my_def [symmetric])
  also have "\<dots> = coefficient_at (terms self) k
          + (if \<bar>variable other\<bar> = k then signed_coefficient other else 0)"
    by (simp add: v old oth s_def)
  finally show ?thesis .
qed

lemma add_term_base:
  assumes "nonneg (terms self)" and "0 \<le> coefficient other"
  shows "degree (add_term other self) - negative_mass (terms (add_term other self))
         = degree self - negative_mass (terms self)
           - (if variable other < 0 then coefficient other else 0)"
proof (cases "dict_index (terms self) \<bar>variable other\<bar>")
  case None
  then show ?thesis
    by (simp add: add_term_def negative_mass_append)
next
  case (Some i)
  define my where "my = terms self ! i"
  define s where
    "s = copysign (coefficient my) (variable my) + copysign (coefficient other) (variable other)"
  have i: "i < length (terms self)" and v: "\<bar>variable my\<bar> = \<bar>variable other\<bar>"
    using dict_index_Some [OF Some] by (simp_all add: my_def)
  have "0 \<le> coefficient my"
    using assms(1) i by (simp add: nonneg_def list_all_length my_def)
  from merged_negative_mass [OF v this assms(2)]
  have m: "max 0 (max (coefficient my) (coefficient other) - \<bar>s\<bar>)
           + (if copysign \<bar>variable my\<bar> s < 0 then \<bar>s\<bar> else 0)
           - (if variable my < 0 then coefficient my else 0)
           = (if variable other < 0 then coefficient other else 0)"
    by (simp only: s_def)
  have "degree (add_term other self) - negative_mass (terms (add_term other self))
        = degree self - negative_mass (terms self)
          - (max 0 (max (coefficient my) (coefficient other) - \<bar>s\<bar>)
             + (if copysign \<bar>variable my\<bar> s < 0 then \<bar>s\<bar> else 0)
             - (if variable my < 0 then coefficient my else 0))"
    using i
    by (simp add: add_term_Some [OF Some my_def s_def] negative_mass_update my_def [symmetric])
  then show ?thesis by (simp only: m)
qed

lemma fold_add_term_coefficient_at:
  "coefficient_at (terms (fold add_term ts self)) k
     = coefficient_at (terms self) k + coefficient_at ts k"
proof (induction ts arbitrary: self)
  case Nil
  show ?case by (simp add: coefficient_at_def)
next
  case (Cons t ts)
  have "coefficient_at (t # ts) k
        = (if \<bar>variable t\<bar> = k then signed_coefficient t else 0) + coefficient_at ts k"
    by (simp add: coefficient_at_def)
  then show ?case
    by (simp add: Cons.IH add_term_coefficient_at)
qed

lemma fold_add_term_base:
  assumes "nonneg (terms self)" and "nonneg ts"
  shows "degree (fold add_term ts self) - negative_mass (terms (fold add_term ts self))
         = degree self - negative_mass (terms self) - negative_mass ts"
  using assms
proof (induction ts arbitrary: self)
  case Nil
  show ?case by (simp add: negative_mass_def)
next
  case (Cons t ts)
  have "negative_mass (t # ts) = (if variable t < 0 then coefficient t else 0) + negative_mass ts"
    by (simp add: negative_mass_def)
  moreover have "nonneg (terms (add_term t self))"
    using Cons.prems by (simp add: nonneg_add_term)
  ultimately show ?case
    using Cons.prems Cons.IH [of "add_term t self"] add_term_base [of self t]
    by simp
qed

lemma addWithFactor_one:
  "addWithFactor self 1 ts d = fold add_term ts (self\<lparr>degree := degree self + d\<rparr>)"
proof -
  have "map (\<lambda>x. Term (1 * coefficient x) (variable x)) ts = ts"
    by (intro map_idI) simp
  then show ?thesis by (simp add: addWithFactor_def)
qed

lemma addWithFactor_one_coefficient_at:
  "coefficient_at (terms (addWithFactor self 1 ts d)) k
     = coefficient_at (terms self) k + coefficient_at ts k"
  by (simp add: addWithFactor_one fold_add_term_coefficient_at)

lemma addWithFactor_one_base:
  assumes "nonneg (terms self)" and "nonneg ts"
  shows "degree (addWithFactor self 1 ts d) - negative_mass (terms (addWithFactor self 1 ts d))
         = (degree self - negative_mass (terms self)) + (d - negative_mass ts)"
  using fold_add_term_base [of "self\<lparr>degree := degree self + d\<rparr>" ts] assms
  by (simp add: addWithFactor_one)

lemma coefficient_at_absent:
  "k \<notin> (\<lambda>t. \<bar>variable t\<bar>) ` set ts \<Longrightarrow> coefficient_at ts k = 0"
  by (induction ts) (auto simp: coefficient_at_def)

lemma coefficient_at_member:
  "distinct_vars ts \<Longrightarrow> t \<in> set ts \<Longrightarrow> coefficient_at ts \<bar>variable t\<bar> = signed_coefficient t"
proof (induction ts)
  case Nil
  then show ?case by simp
next
  case (Cons x xs)
  have split: "coefficient_at (x # xs) k
        = (if \<bar>variable x\<bar> = k then signed_coefficient x else 0) + coefficient_at xs k" for k
    by (simp add: coefficient_at_def)
  from Cons.prems have fresh: "\<bar>variable x\<bar> \<notin> (\<lambda>t. \<bar>variable t\<bar>) ` set xs"
    and dxs: "distinct_vars xs"
    by (auto simp: distinct_vars_def)
  show ?case
  proof (cases "t = x")
    case True
    then show ?thesis using fresh by (simp add: split coefficient_at_absent)
  next
    case False
    then have "t \<in> set xs" using Cons.prems by simp
    moreover from this fresh have "\<bar>variable x\<bar> \<noteq> \<bar>variable t\<bar>" by force
    ultimately show ?thesis using Cons.IH dxs by (simp add: split)
  qed
qed

lemma term_eq_signed:
  assumes "0 < coefficient t" and "0 < coefficient t'"
    and "\<bar>variable t\<bar> = \<bar>variable t'\<bar>" and "signed_coefficient t = signed_coefficient t'"
  shows "t = t'"
  using assms by (cases t; cases t') (auto simp: signed_coefficient_def copysign_def split: if_splits)

lemma canonical_subset:
  assumes X: "nonneg X" "distinct_vars X" "zero_free X"
    and Y: "nonneg Y" "distinct_vars Y" "zero_free Y"
    and eq: "\<And>k. coefficient_at X k = coefficient_at Y k"
  shows "set X \<subseteq> set Y"
proof
  fix t assume t: "t \<in> set X"
  then have pos: "0 < coefficient t"
    using X(1,3) by (force simp: nonneg_def zero_free_def list_all_iff)
  then have nz: "signed_coefficient t \<noteq> 0"
    by (simp add: signed_coefficient_def copysign_def)
  have at: "coefficient_at Y \<bar>variable t\<bar> = signed_coefficient t"
    using coefficient_at_member [OF X(2) t] eq by simp
  with nz have "\<bar>variable t\<bar> \<in> (\<lambda>t. \<bar>variable t\<bar>) ` set Y"
    using coefficient_at_absent [of "\<bar>variable t\<bar>" Y] by auto
  then obtain t' where t': "t' \<in> set Y" "\<bar>variable t'\<bar> = \<bar>variable t\<bar>" by auto
  then have pos': "0 < coefficient t'"
    using Y(1,3) by (force simp: nonneg_def zero_free_def list_all_iff)
  have "signed_coefficient t' = signed_coefficient t"
    using coefficient_at_member [OF Y(2) t'(1)] at t'(2) by simp
  then have "t' = t"
    using term_eq_signed [OF pos' pos t'(2)] by simp
  then show "t \<in> set Y" using t'(1) by simp
qed

lemma canonical_set:
  assumes "nonneg X" "distinct_vars X" "zero_free X"
    and "nonneg Y" "distinct_vars Y" "zero_free Y"
    and "\<And>k. coefficient_at X k = coefficient_at Y k"
  shows "set X = set Y"
  using canonical_subset [of X Y] canonical_subset [of Y X] assms by auto

lemma canonical_sorted:
  assumes "distinct_vars X" "distinct_vars Y" "set X = set Y"
  shows "sort_key (\<lambda>x. \<bar>variable x\<bar>) X = sort_key (\<lambda>x. \<bar>variable x\<bar>) Y"
proof (rule sort_key_inj_key_eq)
  have "distinct X" "distinct Y"
    using assms(1,2) by (simp_all add: distinct_vars_def distinct_map)
  then show "mset X = mset (sort_key (\<lambda>x. \<bar>variable x\<bar>) Y)"
    using assms(3) by (simp add: set_eq_iff_mset_eq_distinct)
  show "inj_on (\<lambda>x. \<bar>variable x\<bar>) (set X)"
    using assms(1) by (simp add: distinct_vars_def distinct_map)
  show "sorted (map (\<lambda>x. \<bar>variable x\<bar>) (sort_key (\<lambda>x. \<bar>variable x\<bar>) Y))"
    by simp
qed

lemma canonical_negative_mass:
  assumes "distinct_vars X" "distinct_vars Y" "set X = set Y"
  shows "negative_mass X = negative_mass Y"
proof -
  have "distinct X" "distinct Y"
    using assms(1,2) by (simp_all add: distinct_vars_def distinct_map)
  then show ?thesis
    using assms(3) by (simp add: negative_mass_def sum_list_distinct_conv_sum_set)
qed

section \<open>Equality of constraints with the same linear form\<close>

lemma coefficient_at_filter:
  "coefficient_at (filter (\<lambda>x. coefficient x \<noteq> 0) ts) k = coefficient_at ts k"
  by (induction ts) (auto simp: coefficient_at_def signed_coefficient_def copysign_def)

lemma negative_mass_filter:
  "negative_mass (filter (\<lambda>x. coefficient x \<noteq> 0) ts) = negative_mass ts"
  by (induction ts) (auto simp: negative_mass_def)

lemma zero_free_filter: "zero_free (filter (\<lambda>x. coefficient x \<noteq> 0) ts)"
  by (simp add: zero_free_def list_all_iff)

lemma filter_zero_free: "zero_free ts \<Longrightarrow> filter (\<lambda>x. coefficient x \<noteq> 0) ts = ts"
  by (simp add: zero_free_def list_all_iff)

text \<open>
  \<open>contract\<close> leaves no term with coefficient 0 when \<open>contract\<close> leaves no term with coefficient 0: the
  dictionary is cached, or there is no such term.
\<close>

lemma contract_settled:
  assumes "distinct_vars (terms C)" and "dict_cached C \<or> zero_free (terms C)"
  shows "terms (Inequality_contract C) = filter (\<lambda>x. coefficient x \<noteq> 0) (terms C)"
    and "degree (Inequality_contract C) = degree C"
  using assms by (auto simp: contract_normal_form filter_zero_free)

lemma canonical_terms:
  assumes "nonneg X" "distinct_vars X" "nonneg Y" "distinct_vars Y"
    and "\<And>k. coefficient_at X k = coefficient_at Y k"
  shows "set (filter (\<lambda>x. coefficient x \<noteq> 0) X) = set (filter (\<lambda>x. coefficient x \<noteq> 0) Y)"
  using assms
  by (intro canonical_set)
     (simp_all add: nonneg_filter distinct_vars_filter zero_free_filter coefficient_at_filter)

lemma eq_of_linear_form:
  assumes A: "normal_form A" "dict_cached A \<or> zero_free (terms A)"
    and B: "normal_form B" "dict_cached B \<or> zero_free (terms B)"
    and coef: "\<And>k. coefficient_at (terms A) k = coefficient_at (terms B) k"
    and base: "degree A - negative_mass (terms A) = degree B - negative_mass (terms B)"
  shows "Inequality_eq A B"
proof -
  let ?X = "filter (\<lambda>x. coefficient x \<noteq> 0) (terms A)"
  let ?Y = "filter (\<lambda>x. coefficient x \<noteq> 0) (terms B)"
  have nA: "nonneg (terms A)" "distinct_vars (terms A)"
    and nB: "nonneg (terms B)" "distinct_vars (terms B)"
    using A(1) B(1) by (simp_all add: normal_form_def)
  have set: "set ?X = set ?Y"
    using nA nB coef by (rule canonical_terms)
  have d: "distinct_vars ?X" "distinct_vars ?Y"
    using nA(2) nB(2) by (simp_all add: distinct_vars_filter)
  have "negative_mass ?X = negative_mass ?Y"
    using d set by (rule canonical_negative_mass)
  then have "degree A = degree B"
    using base by (simp add: negative_mass_filter)
  moreover have "sort_key (\<lambda>x. \<bar>variable x\<bar>) ?X = sort_key (\<lambda>x. \<bar>variable x\<bar>) ?Y"
    using d set by (rule canonical_sorted)
  ultimately show ?thesis
    using contract_settled [OF nA(2) A(2)] contract_settled [OF nB(2) B(2)]
    by (simp add: Inequality_eq_def Let_def)
qed

lemma settled_addWithFactor:
  assumes "dict_cached self \<or> zero_free (terms self)"
  shows "dict_cached (addWithFactor self f ts d) \<or> zero_free (terms (addWithFactor self f ts d))"
proof (cases ts)
  case Nil
  then show ?thesis using assms by (simp add: addWithFactor_def)
next
  case (Cons t ts')
  have cached: "dict_cached (add_term x C)" for x C
    by (simp add: add_term_def Let_def split: option.splits)
  have "dict_cached C \<Longrightarrow> dict_cached (fold add_term xs C)" for xs C
    by (induction xs arbitrary: C) (simp_all add: cached)
  then show ?thesis
    by (simp add: addWithFactor_def Cons cached)
qed

text \<open>
  C7, as stated: for all constraints \<open>a\<close> and \<open>b\<close> in normal form, \<open>a.addWithFactor(1, b)\<close>
  and \<open>b.addWithFactor(1, a)\<close> are equal under \<open>__eq__\<close>. With \<open>a = 0 x1 \<ge> 0\<close> (freshly
  built) and \<open>b\<close> without terms, the first sum never touches \<open>a\<close>'s dictionary, so
  \<open>contract\<close> keeps its term \<open>(0, 1)\<close>, while the second sum caches the dictionary and
  \<open>contract\<close> drops the term.
\<close>

theorem addWithFactor_commutes_counterexample:
  "normal_form (Inequality_init [Term 0 1] 0) \<and> normal_form (Inequality_init [] 0)
   \<and> \<not> Inequality_eq
         (Inequality_addWithFactor (Inequality_init [Term 0 1] 0) 1 (Inequality_init [] 0))
         (Inequality_addWithFactor (Inequality_init [] 0) 1 (Inequality_init [Term 0 1] 0))"
  by (simp add: normal_form_def nonneg_def distinct_vars_def Inequality_init_def
      Inequality_addWithFactor_def addWithFactor_def add_term_def Inequality_eq_def
      Inequality_contract_def dict_def)

text \<open>
  C7, amended: for all constraints \<open>a\<close> and \<open>b\<close> in normal form that store no term with
  coefficient 0, \<open>a.addWithFactor(1, b)\<close> and \<open>b.addWithFactor(1, a)\<close> (each on its own
  copy of the receiver) are equal under \<open>__eq__\<close>, which contracts both sides and
  compares the degrees and the terms sorted by absolute variable.
\<close>

theorem addWithFactor_commutes:
  assumes "normal_form a" and "normal_form b"
    and "zero_free (terms a)" and "zero_free (terms b)"
  shows "Inequality_eq (Inequality_addWithFactor a 1 b) (Inequality_addWithFactor b 1 a)"
proof (rule eq_of_linear_form)
  have na: "nonneg (terms a)" and nb: "nonneg (terms b)"
    using assms(1,2) by (simp_all add: normal_form_def)
  show "normal_form (Inequality_addWithFactor a 1 b)"
    unfolding Inequality_addWithFactor_def
    using assms(1) nb by (rule normal_form_addWithFactor) simp
  show "normal_form (Inequality_addWithFactor b 1 a)"
    unfolding Inequality_addWithFactor_def
    using assms(2) na by (rule normal_form_addWithFactor) simp
  show "dict_cached (Inequality_addWithFactor a 1 b)
        \<or> zero_free (terms (Inequality_addWithFactor a 1 b))"
    unfolding Inequality_addWithFactor_def
    using assms(3) by (intro settled_addWithFactor) simp
  show "dict_cached (Inequality_addWithFactor b 1 a)
        \<or> zero_free (terms (Inequality_addWithFactor b 1 a))"
    unfolding Inequality_addWithFactor_def
    using assms(4) by (intro settled_addWithFactor) simp
  show "coefficient_at (terms (Inequality_addWithFactor a 1 b)) k
        = coefficient_at (terms (Inequality_addWithFactor b 1 a)) k" for k
    by (simp add: Inequality_addWithFactor_def addWithFactor_one_coefficient_at)
  show "degree (Inequality_addWithFactor a 1 b) - negative_mass (terms (Inequality_addWithFactor a 1 b))
        = degree (Inequality_addWithFactor b 1 a) - negative_mass (terms (Inequality_addWithFactor b 1 a))"
    using na nb by (simp add: Inequality_addWithFactor_def addWithFactor_one_base)
qed

theorem addWithFactor_commutes_witness:
  "normal_form \<lparr>terms = [Term 2 1, Term 1 (- 2)], degree = 2, dict_cached = False\<rparr>
   \<and> zero_free [Term 2 1, Term 1 (- 2)]
   \<and> Inequality_eq
     (Inequality_addWithFactor
        \<lparr>terms = [Term 2 1, Term 1 (- 2)], degree = 2, dict_cached = False\<rparr> 1
        \<lparr>terms = [Term 3 (- 1), Term 1 3], degree = 1, dict_cached = False\<rparr>)
     (Inequality_addWithFactor
        \<lparr>terms = [Term 3 (- 1), Term 1 3], degree = 1, dict_cached = False\<rparr> 1
        \<lparr>terms = [Term 2 1, Term 1 (- 2)], degree = 2, dict_cached = False\<rparr>)"
  using addWithFactor_commutes
    [of "\<lparr>terms = [Term 2 1, Term 1 (- 2)], degree = 2, dict_cached = False\<rparr>"
        "\<lparr>terms = [Term 3 (- 1), Term 1 3], degree = 1, dict_cached = False\<rparr>"]
  by (simp add: normal_form_def nonneg_def distinct_vars_def zero_free_def)

section \<open>Rule p on ids and additions\<close>

lemma swap_loop_no_operand:
  "\<forall>x \<in> set xs. x \<noteq> Times \<and> x \<noteq> Div \<Longrightarrow> swap_loop i xs = xs"
proof (induction i xs rule: swap_loop.induct)
  case (1 i xs)
  show ?case
  proof (cases "i < length xs")
    case True
    then have "xs ! i \<noteq> Times \<and> xs ! i \<noteq> Div"
      using "1.prems" by simp
    then show ?thesis
      using True "1.IH"(2) [OF True refl] "1.prems"
      by (subst swap_loop.simps) simp
  next
    case False
    then show ?thesis by (subst swap_loop.simps) simp
  qed
qed

lemma plus_sequence_no_operand:
  "plus_sequence seq n \<Longrightarrow> \<forall>x \<in> set seq. x \<noteq> Times \<and> x \<noteq> Div"
  by (induction seq n rule: plus_sequence.induct) auto

lemma init_plus_sequence:
  "plus_sequence seq n \<Longrightarrow> ReversePolishNotation_init seq = ReversePolishNotation seq"
  by (simp add: ReversePolishNotation_init_def swap_loop_no_operand plus_sequence_no_operand)

lemma normalize_nonneg: "nonneg ts \<Longrightarrow> Inequality_normalize ts d = (ts, d)"
  by (induction ts arbitrary: d) (auto simp: nonneg_def)

lemma map_err_applyTerm_no_operations:
  "operations l = [] \<Longrightarrow> map_err (applyTerm l) ts = Inr ts"
  by (induction ts) (simp_all add: applyTerm_def LazyInequality_apply_def)

lemma settled_views:
  "settled_elem e \<Longrightarrow> elem_terms e = Inr (view_terms e) \<and> elem_degree e = Inr (view_degree e)"
  by (cases e)
     (simp_all add: LazyInequality_terms_def LazyInequality_degree_def LazyInequality_apply_def
        map_err_applyTerm_no_operations)

lemma settled_view_nonneg: "settled_elem e \<Longrightarrow> nonneg (view_terms e)"
  by (cases e) (simp_all add: normal_form_def)

text \<open>The addition step of the loop on two settled elements.\<close>

lemma elem_addWithFactor_settled:
  assumes "settled_elem first" and "settled_elem second"
  shows "\<exists>r. elem_addWithFactor first 1 second = Inr (Mat r) \<and> settled_elem (Mat r)
           \<and> (\<forall>k. coefficient_at (terms r) k
                  = coefficient_at (view_terms first) k + coefficient_at (view_terms second) k)
           \<and> degree r - negative_mass (terms r)
               = (view_degree first - negative_mass (view_terms first))
                 + (view_degree second - negative_mass (view_terms second))"
proof -
  define self where
    "self = (case first of
               Lazy l \<Rightarrow> \<lparr>terms = terms (constraint l), degree = degree (constraint l), dict_cached = False\<rparr>
             | Mat c \<Rightarrow> c)"
  define r where "r = addWithFactor self 1 (view_terms second) (view_degree second)"
  have self: "normal_form self" "dict_cached self \<or> zero_free (terms self)"
    "terms self = view_terms first" "degree self = view_degree first"
    using assms(1) by (cases first; simp add: self_def normal_form_def)+
  have run: "elem_addWithFactor first 1 second = Inr (Mat r)"
    using assms settled_views [OF assms(2)]
    by (cases first)
       (simp_all add: LazyInequality_addWithFactor_def addWithFactor_elem_def r_def self_def
          LazyInequality_terms_def LazyInequality_degree_def LazyInequality_apply_def
          map_err_applyTerm_no_operations Inequality_init_def normalize_nonneg normal_form_def)
  have nn: "nonneg (view_terms second)"
    using assms(2) by (rule settled_view_nonneg)
  have "normal_form r"
    unfolding r_def using self(1) nn by (rule normal_form_addWithFactor) simp
  moreover have "dict_cached r \<or> zero_free (terms r)"
    unfolding r_def using self(2) by (rule settled_addWithFactor)
  moreover have "coefficient_at (terms r) k
        = coefficient_at (view_terms first) k + coefficient_at (view_terms second) k" for k
    by (simp add: r_def addWithFactor_one_coefficient_at self(3))
  moreover have "degree r - negative_mass (terms r)
        = (view_degree first - negative_mass (view_terms first))
          + (view_degree second - negative_mass (view_terms second))"
    using self(1) nn by (simp add: r_def addWithFactor_one_base normal_form_def self(3,4))
  ultimately show ?thesis using run by simp
qed

text \<open>
  The loop of \<open>compute\<close> on a sequence of ids and \<open>+\<close>: it ends with one element, whose
  linear form is the sum of the linear forms on the stack and of the antecedents left.
\<close>

lemma compute_loop_plus:
  assumes "plus_sequence seq (length stack)"
    and "list_all settled_elem stack"
    and "list_all (\<lambda>c. normal_form c \<and> zero_free (terms c)) ants"
    and "length ants = length (AntecedentIterator seq)"
  shows "\<exists>r. compute_loop seq ants stack = Inr [r] \<and> settled_elem r
           \<and> (\<forall>k. coefficient_at (view_terms r) k
                  = (\<Sum>e\<leftarrow>stack. coefficient_at (view_terms e) k)
                    + (\<Sum>c\<leftarrow>ants. coefficient_at (terms c) k))
           \<and> view_degree r - negative_mass (view_terms r)
               = (\<Sum>e\<leftarrow>stack. view_degree e - negative_mass (view_terms e))
                 + (\<Sum>c\<leftarrow>ants. degree c - negative_mass (terms c))"
  using assms
proof (induction seq arbitrary: stack ants)
  case Nil
  then obtain r where "stack = [r]"
    by (cases stack) auto
  with Nil show ?case by simp
next
  case (Cons x seq)
  show ?case
  proof (cases x)
    case (Num i)
    with Cons.prems obtain a ants' where ants: "ants = a # ants'"
      by (cases ants) auto
    let ?e = "Lazy (LazyInequality_init a)"
    have "settled_elem ?e"
      using Cons.prems(3) by (simp add: ants LazyInequality_init_def)
    then have "\<exists>r. compute_loop seq ants' (?e # stack) = Inr [r] \<and> settled_elem r
           \<and> (\<forall>k. coefficient_at (view_terms r) k
                  = (\<Sum>e\<leftarrow>?e # stack. coefficient_at (view_terms e) k)
                    + (\<Sum>c\<leftarrow>ants'. coefficient_at (terms c) k))
           \<and> view_degree r - negative_mass (view_terms r)
               = (\<Sum>e\<leftarrow>?e # stack. view_degree e - negative_mass (view_terms e))
                 + (\<Sum>c\<leftarrow>ants'. degree c - negative_mass (terms c))"
      using Cons.prems by (intro Cons.IH) (simp_all add: Num ants)
    then show ?thesis
      by (simp add: Num ants LazyInequality_init_def algebra_simps)
  next
    case Plus
    with Cons.prems obtain second first stack' where stack: "stack = second # first # stack'"
      by (cases stack; cases "tl stack") auto
    have "settled_elem first" "settled_elem second"
      using Cons.prems(2) by (simp_all add: stack)
    from elem_addWithFactor_settled [OF this] obtain r0 where
      r0: "elem_addWithFactor first 1 second = Inr (Mat r0)" "settled_elem (Mat r0)"
        "\<And>k. coefficient_at (terms r0) k
               = coefficient_at (view_terms first) k + coefficient_at (view_terms second) k"
        "degree r0 - negative_mass (terms r0)
               = (view_degree first - negative_mass (view_terms first))
                 + (view_degree second - negative_mass (view_terms second))"
      by blast
    have "\<exists>r. compute_loop seq ants (Mat r0 # stack') = Inr [r] \<and> settled_elem r
           \<and> (\<forall>k. coefficient_at (view_terms r) k
                  = (\<Sum>e\<leftarrow>Mat r0 # stack'. coefficient_at (view_terms e) k)
                    + (\<Sum>c\<leftarrow>ants. coefficient_at (terms c) k))
           \<and> view_degree r - negative_mass (view_terms r)
               = (\<Sum>e\<leftarrow>Mat r0 # stack'. view_degree e - negative_mass (view_terms e))
                 + (\<Sum>c\<leftarrow>ants. degree c - negative_mass (terms c))"
      using Cons.prems r0(2) by (intro Cons.IH) (simp_all add: Plus stack)
    then show ?thesis
      using r0(1,3,4) by (simp add: Plus stack algebra_simps)
  next
    case Times
    with Cons.prems show ?thesis by simp
  next
    case Div
    with Cons.prems show ?thesis by simp
  next
    case Sat
    with Cons.prems show ?thesis by simp
  qed
qed


text \<open>The loop of \<open>LinearCombination.compute\<close> with every factor 1.\<close>

lemma linear_combination_fold:
  assumes "list_all (\<lambda>c. normal_form c \<and> zero_free (terms c)) ants"
    and "normal_form acc" and "dict_cached acc \<or> zero_free (terms acc)"
  shows "\<exists>r. fold (\<lambda>(factor, constraint) result. Inequality_addWithFactor result factor constraint)
               (zip (replicate (length ants) 1) ants) acc = r
           \<and> normal_form r \<and> (dict_cached r \<or> zero_free (terms r))
           \<and> (\<forall>k. coefficient_at (terms r) k
                  = coefficient_at (terms acc) k + (\<Sum>c\<leftarrow>ants. coefficient_at (terms c) k))
           \<and> degree r - negative_mass (terms r)
               = (degree acc - negative_mass (terms acc))
                 + (\<Sum>c\<leftarrow>ants. degree c - negative_mass (terms c))"
  using assms
proof (induction ants arbitrary: acc)
  case Nil
  then show ?case by simp
next
  case (Cons a ants)
  define acc' where "acc' = Inequality_addWithFactor acc 1 a"
  have a: "normal_form a" "nonneg (terms a)"
    using Cons.prems(1) by (simp_all add: normal_form_def)
  have 1: "normal_form acc'"
    unfolding acc'_def Inequality_addWithFactor_def
    using Cons.prems(2) a(2) by (rule normal_form_addWithFactor) simp
  have 2: "dict_cached acc' \<or> zero_free (terms acc')"
    unfolding acc'_def Inequality_addWithFactor_def
    using Cons.prems(3) by (rule settled_addWithFactor)
  have 3: "coefficient_at (terms acc') k
           = coefficient_at (terms acc) k + coefficient_at (terms a) k" for k
    by (simp add: acc'_def Inequality_addWithFactor_def addWithFactor_one_coefficient_at)
  have 4: "degree acc' - negative_mass (terms acc')
           = (degree acc - negative_mass (terms acc)) + (degree a - negative_mass (terms a))"
    using Cons.prems(2) a(2)
    by (simp add: acc'_def Inequality_addWithFactor_def addWithFactor_one_base normal_form_def)
  have "list_all (\<lambda>c. normal_form c \<and> zero_free (terms c)) ants"
    using Cons.prems(1) by simp
  from Cons.IH [OF this 1 2] show ?case
    by (simp add: acc'_def [symmetric] 3 4 algebra_simps)
qed

text \<open>\<open>==\<close> between the result of rule \<open>p\<close> and a constraint with the same linear form.\<close>

lemma elem_eq_of_linear_form:
  assumes r: "settled_elem r"
    and B: "normal_form B" "dict_cached B \<or> zero_free (terms B)"
    and coef: "\<And>k. coefficient_at (view_terms r) k = coefficient_at (terms B) k"
    and base: "view_degree r - negative_mass (view_terms r) = degree B - negative_mass (terms B)"
  shows "elem_eq (elem_contract r) B = Inr True"
proof (cases r)
  case (Mat c)
  have c: "normal_form c" "distinct_vars (terms c)" "dict_cached c \<or> zero_free (terms c)"
    using r by (simp_all add: Mat normal_form_def)
  have t: "terms (Inequality_contract c) = filter (\<lambda>x. coefficient x \<noteq> 0) (terms c)"
    and d: "degree (Inequality_contract c) = degree c"
    using contract_settled [OF c(2,3)] by simp_all
  have "Inequality_eq (Inequality_contract c) B"
  proof (rule eq_of_linear_form)
    show "normal_form (Inequality_contract c)"
      using c(1) by (rule normal_form_contract)
    show "dict_cached (Inequality_contract c) \<or> zero_free (terms (Inequality_contract c))"
      by (simp add: t zero_free_filter)
    show "coefficient_at (terms (Inequality_contract c)) k = coefficient_at (terms B) k" for k
      using coef [of k] by (simp add: t coefficient_at_filter Mat)
    show "degree (Inequality_contract c) - negative_mass (terms (Inequality_contract c))
          = degree B - negative_mass (terms B)"
      using base by (simp add: t d negative_mass_filter Mat)
  qed (rule B)+
  then show ?thesis by (simp add: Mat elem_eq_def)
next
  case (Lazy l)
  define C where "C = constraint l"
  have C: "normal_form C" "distinct_vars (terms C)" "zero_free (terms C)" "operations l = []"
    using r by (simp_all add: Lazy C_def normal_form_def)
  have "Inequality_eq B C"
  proof (rule eq_of_linear_form)
    show "coefficient_at (terms B) k = coefficient_at (terms C) k" for k
      using coef [of k] by (simp add: Lazy C_def)
    show "degree B - negative_mass (terms B) = degree C - negative_mass (terms C)"
      using base by (simp add: Lazy C_def)
  qed (use B C in simp_all)
  moreover have "terms (Inequality_contract C) = terms C" "degree (Inequality_contract C) = degree C"
    using contract_settled [of C] C by (simp_all add: filter_zero_free)
  ultimately have "degree (Inequality_contract B) = degree C"
    and "sort_key (\<lambda>x. \<bar>variable x\<bar>) (terms (Inequality_contract B))
         = sort_key (\<lambda>x. \<bar>variable x\<bar>) (terms C)"
    by (simp_all add: Inequality_eq_def Let_def)
  then show ?thesis
    using C(4)
    by (simp add: Lazy elem_eq_def Inequality_eq_elem_def Let_def C_def
        LazyInequality_degree_def LazyInequality_terms_def LazyInequality_apply_def
        map_err_applyTerm_no_operations)
qed

text \<open>
  C6, as stated: for every well-formed sequence of ids and \<open>+\<close>, the constraint that
  rule \<open>p\<close> returns equals (\<open>==\<close>) the one that rule \<open>a\<close> returns on the same ids with
  factors 1. On the single id of the constraint \<open>0 x1 \<ge> 0\<close>, rule \<open>p\<close> returns the
  \<open>LazyInequality\<close> over that constraint, whose term \<open>(0, 1)\<close> no \<open>contract\<close> removes,
  while the sum of rule \<open>a\<close> loses the term in \<open>contract\<close>. On \<open>1 2 +\<close> with the
  constraint \<open>x1 + x1 \<ge> 1\<close> (built with two terms on \<open>x1\<close>) and \<open>0 \<ge> 0\<close>, rule \<open>p\<close>
  keeps the two terms and rule \<open>a\<close> merges them.
\<close>

theorem rpn_plus_counterexample:
  "ReversePolishNotation_compute (ReversePolishNotation_init [Num 1]) [Inequality_init [Term 0 1] 0]
     = Inr [Lazy (LazyInequality_init (Inequality_init [Term 0 1] 0))]
   \<and> LinearCombination_compute (LinearCombination [1] [1]) [Inequality_init [Term 0 1] 0]
     = [\<lparr>terms = [Term 0 1], degree = 0, dict_cached = True\<rparr>]
   \<and> elem_eq (Lazy (LazyInequality_init (Inequality_init [Term 0 1] 0)))
        \<lparr>terms = [Term 0 1], degree = 0, dict_cached = True\<rparr> = Inr False
   \<and> ReversePolishNotation_compute (ReversePolishNotation_init [Num 1, Num 2, Plus])
        [Inequality_init [Term 1 1, Term 1 1] 1, Inequality_init [] 0]
     = Inr [Mat \<lparr>terms = [Term 1 1, Term 1 1], degree = 1, dict_cached = False\<rparr>]
   \<and> LinearCombination_compute (LinearCombination [1, 1] [1, 2])
        [Inequality_init [Term 1 1, Term 1 1] 1, Inequality_init [] 0]
     = [\<lparr>terms = [Term 2 1], degree = 1, dict_cached = True\<rparr>]
   \<and> elem_eq (Mat \<lparr>terms = [Term 1 1, Term 1 1], degree = 1, dict_cached = False\<rparr>)
        \<lparr>terms = [Term 2 1], degree = 1, dict_cached = True\<rparr> = Inr False"
  by (simp add: ReversePolishNotation_compute_def ReversePolishNotation_init_def swap_loop.simps
      LinearCombination_compute_def Inequality_init_def LazyInequality_init_def
      Inequality_addWithFactor_def addWithFactor_def add_term_def elem_eq_def
      Inequality_eq_elem_def Inequality_eq_def Inequality_contract_def dict_def
      LazyInequality_degree_def LazyInequality_terms_def LazyInequality_apply_def applyTerm_def
      LazyInequality_addWithFactor_def addWithFactor_elem_def copysign_def AllBooleanUpperBound_def)

text \<open>
  C6, amended: for every well-formed sequence of ids and \<open>+\<close>, run on antecedents that
  are in normal form and store no term with coefficient 0, rule \<open>p\<close> returns exactly one
  constraint, and it equals (\<open>==\<close>) the constraint that rule \<open>a\<close> returns on the same
  ids, in the same order, with every factor 1.
\<close>

theorem rpn_plus_equals_linear_combination:
  assumes "plus_sequence seq 0"
    and "length antecedents = length (AntecedentIterator seq)"
    and "list_all (\<lambda>c. normal_form c \<and> zero_free (terms c)) antecedents"
  shows "\<exists>r r'. ReversePolishNotation_compute (ReversePolishNotation_init seq) antecedents = Inr [r]
           \<and> LinearCombination_compute
                (LinearCombination (replicate (length antecedents) 1) (AntecedentIterator seq))
                antecedents = [r']
           \<and> elem_eq r r' = Inr True"
proof -
  from compute_loop_plus [of seq "[]" antecedents] assms obtain r0 where
    r0: "compute_loop seq antecedents [] = Inr [r0]" "settled_elem r0"
      "\<And>k. coefficient_at (view_terms r0) k = (\<Sum>c\<leftarrow>antecedents. coefficient_at (terms c) k)"
      "view_degree r0 - negative_mass (view_terms r0)
         = (\<Sum>c\<leftarrow>antecedents. degree c - negative_mass (terms c))"
    by auto
  have run: "ReversePolishNotation_compute (ReversePolishNotation_init seq) antecedents
             = Inr [elem_contract r0]"
    using assms(1) r0(1) by (simp add: init_plus_sequence ReversePolishNotation_compute_def)
  have zero: "Inequality_init [] 0 = \<lparr>terms = [], degree = 0, dict_cached = False\<rparr>"
    by (simp add: Inequality_init_def)
  from linear_combination_fold [OF assms(3), of "Inequality_init [] 0"] obtain r' where
    r': "fold (\<lambda>(factor, constraint) result. Inequality_addWithFactor result factor constraint)
           (zip (replicate (length antecedents) 1) antecedents) (Inequality_init [] 0) = r'"
      "normal_form r'" "dict_cached r' \<or> zero_free (terms r')"
      "\<And>k. coefficient_at (terms r') k = (\<Sum>c\<leftarrow>antecedents. coefficient_at (terms c) k)"
      "degree r' - negative_mass (terms r')
         = (\<Sum>c\<leftarrow>antecedents. degree c - negative_mass (terms c))"
    by (auto simp: zero normal_form_def nonneg_def distinct_vars_def zero_free_def
        coefficient_at_def negative_mass_def)
  have lc: "LinearCombination_compute
              (LinearCombination (replicate (length antecedents) 1) (AntecedentIterator seq))
              antecedents = [r']"
    by (simp add: LinearCombination_compute_def r'(1))
  have "elem_eq (elem_contract r0) r' = Inr True"
    using r0(2) r'(2,3) by (rule elem_eq_of_linear_form) (simp_all add: r0(3,4) r'(4,5))
  with run lc show ?thesis by blast
qed


theorem rpn_plus_equals_linear_combination_witness:
  "plus_sequence [Num 1, Num 2, Num 3, Plus, Plus] 0
   \<and> (\<exists>r r'. ReversePolishNotation_compute
               (ReversePolishNotation_init [Num 1, Num 2, Num 3, Plus, Plus])
               [\<lparr>terms = [Term 2 1, Term 1 (- 2)], degree = 2, dict_cached = False\<rparr>,
                \<lparr>terms = [Term 2 (- 1), Term 1 3], degree = 1, dict_cached = False\<rparr>,
                \<lparr>terms = [Term 1 2], degree = 1, dict_cached = False\<rparr>] = Inr [r]
         \<and> LinearCombination_compute (LinearCombination [1, 1, 1] [1, 2, 3])
               [\<lparr>terms = [Term 2 1, Term 1 (- 2)], degree = 2, dict_cached = False\<rparr>,
                \<lparr>terms = [Term 2 (- 1), Term 1 3], degree = 1, dict_cached = False\<rparr>,
                \<lparr>terms = [Term 1 2], degree = 1, dict_cached = False\<rparr>] = [r']
         \<and> elem_eq r r' = Inr True)"
  using rpn_plus_equals_linear_combination
    [of "[Num 1, Num 2, Num 3, Plus, Plus]"
        "[\<lparr>terms = [Term 2 1, Term 1 (- 2)], degree = 2, dict_cached = False\<rparr>,
          \<lparr>terms = [Term 2 (- 1), Term 1 3], degree = 1, dict_cached = False\<rparr>,
          \<lparr>terms = [Term 1 2], degree = 1, dict_cached = False\<rparr>]"]
  by (simp add: normal_form_def nonneg_def distinct_vars_def zero_free_def)

end
